theory Spec2Isabelle
  imports Main "HOL-Library.Char_ord"
begin

section \<open>JavaScript values used by the helpers\<close>

text \<open>
  Strings are lists of 8-bit characters, so the development covers the code units
  0..255 of a JavaScript string. An optional value (\<open>string | undefined\<close>) is an
  \<open>option\<close>; JavaScript treats \<open>undefined\<close> and the empty string as falsy.
\<close>

definition truthy :: "string option \<Rightarrow> bool" where
  "truthy v = (case v of None \<Rightarrow> False | Some s \<Rightarrow> s \<noteq> [])"

text \<open>\<open>a || b\<close> on optional strings.\<close>

definition orElse :: "string option \<Rightarrow> string option \<Rightarrow> string option" where
  "orElse a b = (if truthy a then a else b)"

text \<open>\<open>String.prototype.startsWith\<close>.\<close>

definition startsWith :: "string \<Rightarrow> string \<Rightarrow> bool" where
  "startsWith s p = (take (length p) s = p)"

text \<open>Rendering of a non-negative integer inside a template literal.\<close>

definition digitChar :: "nat \<Rightarrow> char" where
  "digitChar n = ''0123456789'' ! (n mod 10)"

fun decimal :: "nat \<Rightarrow> string" where
  "decimal n = (if n < 10 then [digitChar n] else decimal (n div 10) @ [digitChar n])"

declare decimal.simps [simp del]

text \<open>
  \<open>String.prototype.toLowerCase\<close> on the code units 0..255: the letters A-Z and the
  Latin-1 capitals U+00C0..U+00DE (without the multiplication sign U+00D7) move up
  by 32, every other code unit stays.
\<close>

definition toLowerCaseChar :: "char \<Rightarrow> char" where
  "toLowerCaseChar c =
     (let n = (of_char c :: nat) in
      if (65 \<le> n \<and> n \<le> 90) \<or> (192 \<le> n \<and> n \<le> 222 \<and> n \<noteq> 215)
      then char_of (n + 32) else c)"

definition toLowerCase :: "string \<Rightarrow> string" where
  "toLowerCase s = map toLowerCaseChar s"

section \<open>Bucket-name derivation (platform-stack.ts, getWebsiteBucketName)\<close>

text \<open>
  The errors the helpers throw, one constructor per \<open>throw\<close> or rejecting call. What
  a service rejects with is an \<open>Error\<close> object with a message.
\<close>

datatype error =
    BucketNameTooShort string
  | BucketNameTooLong string nat
  | S3SyncFailed string
  | ServiceError string

text \<open>The message of the thrown \<open>Error\<close> object, as the template literals build it.\<close>

fun message :: "error \<Rightarrow> string" where
  "message (BucketNameTooShort bucketName) =
     ''Bucket name too short: '' @ [CHR 0x22] @ bucketName @ [CHR 0x22]"
| "message (BucketNameTooLong bucketName n) =
     ''Bucket name too long: '' @ [CHR 0x22] @ bucketName @ [CHR 0x22] @
     '' ('' @ decimal n @ '' chars, max 63)''"
| "message (S3SyncFailed m) = ''S3 sync failed: '' @ m"
| "message (ServiceError m) = m"

text \<open>\<open>.replace(/\./g, "-")\<close>\<close>

definition replaceDots :: "string \<Rightarrow> string" where
  "replaceDots s = map (\<lambda>c. if c = CHR ''.'' then CHR ''-'' else c) s"

text \<open>The character class \<open>[a-z0-9-]\<close>.\<close>

definition validChar :: "char \<Rightarrow> bool" where
  "validChar c =
     ((CHR ''a'' \<le> c \<and> c \<le> CHR ''z'') \<or> (CHR ''0'' \<le> c \<and> c \<le> CHR ''9'') \<or>
      c = CHR ''-'')"

text \<open>\<open>.replace(/[^a-z0-9-]/g, "")\<close>\<close>

definition removeInvalid :: "string \<Rightarrow> string" where
  "removeInvalid s = filter validChar s"

text \<open>\<open>.replace(/-+/g, "-")\<close>: every maximal run of hyphens becomes one hyphen.\<close>

function collapseHyphens :: "string \<Rightarrow> string" where
  "collapseHyphens [] = []"
| "collapseHyphens (c # cs) =
     (if c = CHR ''-''
      then CHR ''-'' # collapseHyphens (dropWhile (\<lambda>d. d = CHR ''-'') cs)
      else c # collapseHyphens cs)"
  by pat_completeness auto
termination
  by (relation "measure length") (auto simp: le_imp_less_Suc length_dropWhile_le)

text \<open>
  \<open>.replace(/^-|-$/g, "")\<close>: a hyphen at the start is removed, and then a hyphen at
  the end of what is left (the two alternatives never match the same character).
\<close>

definition trimHyphens :: "string \<Rightarrow> string" where
  "trimHyphens s =
     (let s1 = (case s of [] \<Rightarrow> [] | c # cs \<Rightarrow> if c = CHR ''-'' then cs else s)
      in if s1 \<noteq> [] \<and> last s1 = CHR ''-'' then butlast s1 else s1)"

definition sanitized :: "string \<Rightarrow> string" where
  "sanitized domain =
     trimHyphens (collapseHyphens (removeInvalid (replaceDots (toLowerCase domain))))"

definition getWebsiteBucketName :: "string \<Rightarrow> error + string" where
  "getWebsiteBucketName domain =
     (let bucketName = sanitized domain @ ''-website'' in
      if length bucketName < 3 then Inl (BucketNameTooShort bucketName)
      else if length bucketName > 63
        then Inl (BucketNameTooLong bucketName (length bucketName))
      else Inr bucketName)"

section \<open>Region resolution (deploy-website.ts, getRegionFromProfile)\<close>

text \<open>
  \<open>loadSharedConfigFiles\<close> yields the parsed config file and credentials file: each
  maps a profile name to a section, a section maps a key to its value. The code reads
  both files through \<open>?.\<close>, so each file is optional here. A file is a map of
  the sections it holds: a profile name that happens to name a property every
  JavaScript object inherits (such as "constructor") is looked up like any other name.
\<close>

type_synonym IniSection = "string \<rightharpoonup> string"
type_synonym ParsedIniData = "string \<rightharpoonup> IniSection"

record SharedConfigFiles =
  configFile :: "ParsedIniData option"
  credentialsFile :: "ParsedIniData option"

record ProcessEnv =
  AWS_REGION :: "string option"
  AWS_DEFAULT_REGION :: "string option"

text \<open>\<open>file?.[profileName]\<close>\<close>

definition lookupProfile :: "ParsedIniData option \<Rightarrow> string \<Rightarrow> IniSection option" where
  "lookupProfile file profileName = (case file of None \<Rightarrow> None | Some f \<Rightarrow> f profileName)"

text \<open>\<open>profileConfig?.region\<close>\<close>

definition regionOf :: "IniSection option \<Rightarrow> string option" where
  "regionOf profileConfig = (case profileConfig of None \<Rightarrow> None | Some section \<Rightarrow> section ''region'')"

text \<open>
  \<open>configFile?.[profileName] || credentialsFile?.[profileName]\<close>: a section is an
  object, hence truthy whenever it exists, whatever its keys.
\<close>

definition selectProfileConfig :: "SharedConfigFiles \<Rightarrow> string \<Rightarrow> IniSection option" where
  "selectProfileConfig configFiles profileName =
     (case lookupProfile (configFile configFiles) profileName of
        Some section \<Rightarrow> Some section
      | None \<Rightarrow> lookupProfile (credentialsFile configFiles) profileName)"

definition getRegionFromProfile :: "SharedConfigFiles \<Rightarrow> ProcessEnv \<Rightarrow> string \<Rightarrow> string" where
  "getRegionFromProfile configFiles env profile =
     (let profileName = (if profile \<noteq> [] then profile else ''default'');
          profileConfig = selectProfileConfig configFiles profileName
      in if truthy (regionOf profileConfig)
         then (case regionOf profileConfig of Some r \<Rightarrow> r | None \<Rightarrow> [])
         else (case orElse (AWS_REGION env) (AWS_DEFAULT_REGION env) of
                 Some r \<Rightarrow> if r \<noteq> [] then r else ''us-east-1''
               | None \<Rightarrow> ''us-east-1''))"

text \<open>
  The order of the specification, written from its words: the profile's region in the
  config file, the same profile's region in the credentials file, the two environment
  variables, the fallback; the first non-empty value is the result.
\<close>

fun firstNonEmpty :: "string option list \<Rightarrow> string \<Rightarrow> string" where
  "firstNonEmpty [] fallback = fallback"
| "firstNonEmpty (v # vs) fallback =
     (case v of
        Some s \<Rightarrow> if s \<noteq> [] then s else firstNonEmpty vs fallback
      | None \<Rightarrow> firstNonEmpty vs fallback)"

definition regionBySpecOrder :: "SharedConfigFiles \<Rightarrow> ProcessEnv \<Rightarrow> string \<Rightarrow> string" where
  "regionBySpecOrder configFiles env profile =
     (let profileName = (if profile \<noteq> [] then profile else ''default'') in
      firstNonEmpty
        [regionOf (lookupProfile (configFile configFiles) profileName),
         regionOf (lookupProfile (credentialsFile configFiles) profileName),
         AWS_REGION env,
         AWS_DEFAULT_REGION env]
        ''us-east-1'')"

section \<open>Distribution discovery (deploy-website.ts, findDistributionsForBucket)\<close>

text \<open>
  The parts of a \<open>ListDistributions\<close> response the code reads. \<open>Origins\<close> stands for
  \<open>dist.Origins?.Items\<close>, and \<open>Items\<close> and \<open>NextMarker\<close> for
  \<open>response.DistributionList?.Items\<close> and \<open>response.DistributionList?.NextMarker\<close>:
  each is \<open>None\<close> where the chain yields \<open>undefined\<close>.
\<close>

record Origin =
  DomainName :: "string option"

record DistributionSummary =
  Id' :: "string option"
  Origins :: "Origin list option"

record ListDistributionsCommandOutput =
  Items :: "DistributionSummary list option"
  NextMarker :: "string option"

text \<open>\<open>origin.DomainName || ""\<close> against \<open>`${bucketName}.s3`\<close>.\<close>

definition originMatches :: "string \<Rightarrow> Origin \<Rightarrow> bool" where
  "originMatches bucket origin =
     (let domainName = (case DomainName origin of Some s \<Rightarrow> s | None \<Rightarrow> [])
      in startsWith domainName (bucket @ ''.s3''))"

text \<open>
  The inner \<open>for\<close> loop over the origins of one distribution: on a matching origin
  and a truthy \<open>dist.Id\<close> the identifier is pushed and \<open>break\<close> leaves the loop.
\<close>

fun scanOrigins :: "string \<Rightarrow> DistributionSummary \<Rightarrow> Origin list \<Rightarrow> string list \<Rightarrow> string list" where
  "scanOrigins bucket dist [] distributionIds = distributionIds"
| "scanOrigins bucket dist (origin # rest) distributionIds =
     (if originMatches bucket origin
      then (if truthy (Id' dist)
            then distributionIds @ [case Id' dist of Some i \<Rightarrow> i | None \<Rightarrow> []]
            else scanOrigins bucket dist rest distributionIds)
      else scanOrigins bucket dist rest distributionIds)"

text \<open>\<open>dist.Origins?.Items || []\<close> and \<open>response.DistributionList?.Items || []\<close>\<close>

definition originsOf :: "DistributionSummary \<Rightarrow> Origin list" where
  "originsOf dist = (case Origins dist of Some os \<Rightarrow> os | None \<Rightarrow> [])"

definition itemsOf :: "ListDistributionsCommandOutput \<Rightarrow> DistributionSummary list" where
  "itemsOf response = (case Items response of Some ds \<Rightarrow> ds | None \<Rightarrow> [])"

text \<open>The outer \<open>for\<close> loop over the distributions of one page.\<close>

fun scanDistributions :: "string \<Rightarrow> DistributionSummary list \<Rightarrow> string list \<Rightarrow> string list" where
  "scanDistributions bucket [] distributionIds = distributionIds"
| "scanDistributions bucket (dist # rest) distributionIds =
     scanDistributions bucket rest (scanOrigins bucket dist (originsOf dist) distributionIds)"

text \<open>
  How an asynchronous computation stands after a bounded number of loop rounds: it has
  returned, it has thrown, or it is still running.
\<close>

datatype 'a completion = Returned 'a | Threw error | Pending

text \<open>
  The CloudFront client as the loop sees it: the answer to the \<open>k\<close>-th
  \<open>ListDistributions\<close> request of a run, given the marker the request carries. The
  answer may depend on \<open>k\<close>, so the service need not answer the same marker twice
  alike.
\<close>

type_synonym ListDistributionsService =
  "nat \<Rightarrow> string option \<Rightarrow> error + ListDistributionsCommandOutput"

text \<open>
  The \<open>do ... while (marker)\<close> loop, with the number of rounds it may still run. It
  returns what the function has come to and the markers of the requests sent, in
  order. The body runs before the condition is tested.
\<close>

fun listLoop ::
  "nat \<Rightarrow> ListDistributionsService \<Rightarrow> string \<Rightarrow> nat \<Rightarrow> string option \<Rightarrow> string list
     \<Rightarrow> string list completion \<times> string option list" where
  "listLoop 0 send bucket k marker distributionIds = (Pending, [])"
| "listLoop (Suc fuel) send bucket k marker distributionIds =
     (case send k marker of
        Inl e \<Rightarrow> (Threw e, [marker])
      | Inr response \<Rightarrow>
          (let distributions = itemsOf response;
               found = scanDistributions bucket distributions distributionIds;
               next = NextMarker response
           in if truthy next
              then (case listLoop fuel send bucket (Suc k) next found of
                      (r, sent) \<Rightarrow> (r, marker # sent))
              else (Returned found, [marker])))"

definition findDistributionsForBucket ::
  "nat \<Rightarrow> ListDistributionsService \<Rightarrow> string
     \<Rightarrow> string list completion \<times> string option list" where
  "findDistributionsForBucket fuel send bucket = listLoop fuel send bucket 0 None []"

section \<open>Sync and invalidation (deploy-website.ts, deployWebsite)\<close>

text \<open>\<open>fromIni({ profile })\<close>; \<open>undefined\<close> credentials mean the default chain.\<close>

datatype credentialProvider = FromIni string

record ClientConfig =
  region :: string
  credentials :: "credentialProvider option"

record CreateInvalidationCommandInput =
  DistributionId :: string
  CallerReference :: string
  PathsQuantity :: nat
  PathsItems :: "string list"

text \<open>
  What a run does to the outside, in order: console lines, the construction of the two
  clients, the call of the mirror operation (source path, target, the \<open>del\<close> flag), the
  listing requests with their markers, the invalidation requests.
\<close>

datatype event =
    ConsoleLog string
  | NewS3Client ClientConfig
  | NewCloudFrontClient ClientConfig
  | Sync string string bool
  | ListDistributions "string option"
  | CreateInvalidation CreateInvalidationCommandInput

text \<open>
  The surroundings of a run: the loaded configuration files, the process environment,
  the outcome of the mirror operation for a source and a target (\<open>None\<close> when it
  succeeds), the listing service, the outcome of the \<open>k\<close>-th invalidation request and
  the \<open>k\<close>-th reading of \<open>Date.now()\<close>, in milliseconds since the epoch.
\<close>

record Env =
  sharedConfigFiles :: SharedConfigFiles
  processEnv :: ProcessEnv
  sync :: "string \<Rightarrow> string \<Rightarrow> error option"
  listDistributions :: ListDistributionsService
  createInvalidation :: "nat \<Rightarrow> CreateInvalidationCommandInput \<Rightarrow> error option"
  dateNow :: "nat \<Rightarrow> nat"

text \<open>\<open>`${Date.now()}-${distributionId}`\<close>\<close>

definition callerReference :: "nat \<Rightarrow> string \<Rightarrow> string" where
  "callerReference now distributionId = decimal now @ ''-'' @ distributionId"

text \<open>
  The \<open>for\<close> loop over the distributions found: one request each, in order; a request
  that fails ends the run.
\<close>

fun invalidateAll :: "Env \<Rightarrow> nat \<Rightarrow> string list \<Rightarrow> unit completion \<times> event list" where
  "invalidateAll env k [] = (Returned (), [])"
| "invalidateAll env k (distributionId # rest) =
     (let request =
            \<lparr>DistributionId = distributionId,
             CallerReference = callerReference (dateNow env k) distributionId,
             PathsQuantity = 1,
             PathsItems = [''/*'']\<rparr>
      in case createInvalidation env k request of
           Some e \<Rightarrow> (Threw e, [CreateInvalidation request])
         | None \<Rightarrow>
             (case invalidateAll env (Suc k) rest of
                (r, events) \<Rightarrow>
                  (r, CreateInvalidation request
                      # ConsoleLog (''CloudFront invalidation created for '' @ distributionId)
                      # events)))"

record DeployWebsiteOptions =
  bucketName :: string
  profile :: "string option"
  websitePath :: "string option"

text \<open>The part of \<open>deployWebsite\<close> after a successful mirror operation.\<close>

definition invalidateDistributions ::
  "nat \<Rightarrow> Env \<Rightarrow> string \<Rightarrow> unit completion \<times> event list" where
  "invalidateDistributions fuel env bucket =
     (case findDistributionsForBucket fuel (listDistributions env) bucket of
        (found, sent) \<Rightarrow>
          (case found of
             Pending \<Rightarrow> (Pending, map ListDistributions sent)
           | Threw e \<Rightarrow> (Threw e, map ListDistributions sent)
           | Returned distributionIds \<Rightarrow>
               if length distributionIds = 0
               then (Returned (),
                     map ListDistributions sent
                     @ [ConsoleLog ''No CloudFront distributions found for this bucket''])
               else (case invalidateAll env 0 distributionIds of
                       (r, events) \<Rightarrow>
                         (r, map ListDistributions sent
                             @ [ConsoleLog (''Found '' @ decimal (length distributionIds)
                                  @ '' CloudFront distribution(s) linked to bucket'')]
                             @ events))))"

definition deployWebsite ::
  "nat \<Rightarrow> Env \<Rightarrow> DeployWebsiteOptions \<Rightarrow> unit completion \<times> event list" where
  "deployWebsite fuel env options =
     (let bucket = bucketName options;
          prof = (case profile options of Some p \<Rightarrow> p | None \<Rightarrow> []);
          path = (case websitePath options of Some w \<Rightarrow> w | None \<Rightarrow> ''website'');
          region = getRegionFromProfile (sharedConfigFiles env) (processEnv env) prof;
          credentials = (if prof \<noteq> [] then Some (FromIni prof) else None);
          config = \<lparr>region = region, credentials = credentials\<rparr>;
          target = ''s3://'' @ bucket;
          started =
            [ConsoleLog (''Using region: '' @ region),
             NewS3Client config,
             NewCloudFrontClient config,
             ConsoleLog (''Syncing '' @ [CHR 0x22] @ path @ [CHR 0x22] @ '' to '' @ target @ ''...''),
             Sync path target True]
      in case sync env path target of
           Some e \<Rightarrow> (Threw (S3SyncFailed (message e)), started)
         | None \<Rightarrow>
             (case invalidateDistributions fuel env bucket of
                (r, events) \<Rightarrow>
                  (r, started @ [ConsoleLog ''S3 sync completed successfully''] @ events)))"

text \<open>The invalidation requests of a trace, in the order they were issued.\<close>

fun invalidations :: "event list \<Rightarrow> CreateInvalidationCommandInput list" where
  "invalidations [] = []"
| "invalidations (CreateInvalidation request # events) = request # invalidations events"
| "invalidations (_ # events) = invalidations events"

section \<open>Notions the properties are stated with\<close>

text \<open>
  What one distribution adds to the result: its identifier, once, when the identifier
  is truthy and one of its origins matches; otherwise nothing.
\<close>

definition distributionMatch :: "string \<Rightarrow> DistributionSummary \<Rightarrow> string list" where
  "distributionMatch bucket dist =
     (case Id' dist of
        Some i \<Rightarrow>
          if i \<noteq> [] \<and> (\<exists>origin \<in> set (originsOf dist). originMatches bucket origin)
          then [i] else []
      | None \<Rightarrow> [])"

definition pageMatches :: "string \<Rightarrow> ListDistributionsCommandOutput \<Rightarrow> string list" where
  "pageMatches bucket page = concat (map (distributionMatch bucket) (itemsOf page))"

text \<open>
  A sequence of pages linked by continuation markers, as the service hands it out from
  its \<open>k\<close>-th request on: the request with the current marker is answered by the first
  page, every page but the last carries a truthy marker, which leads to the next page,
  and the last page carries none.
\<close>

fun linkedPages ::
  "ListDistributionsService \<Rightarrow> nat \<Rightarrow> string option \<Rightarrow> ListDistributionsCommandOutput list
     \<Rightarrow> bool" where
  "linkedPages send k marker [] = False"
| "linkedPages send k marker [page] =
     (send k marker = Inr page \<and> \<not> truthy (NextMarker page))"
| "linkedPages send k marker (page # following # pages) =
     (send k marker = Inr page \<and> truthy (NextMarker page) \<and>
      linkedPages send (Suc k) (NextMarker page) (following # pages))"

text \<open>The calls of a run that reach a service.\<close>

fun isServiceCall :: "event \<Rightarrow> bool" where
  "isServiceCall (Sync path target del) = True"
| "isServiceCall (ListDistributions marker) = True"
| "isServiceCall (CreateInvalidation request) = True"
| "isServiceCall _ = False"

text \<open>The arguments \<open>deployWebsite\<close> passes to the mirror operation.\<close>

definition syncSource :: "DeployWebsiteOptions \<Rightarrow> string" where
  "syncSource options = (case websitePath options of Some w \<Rightarrow> w | None \<Rightarrow> ''website'')"

definition syncTarget :: "DeployWebsiteOptions \<Rightarrow> string" where
  "syncTarget options = ''s3://'' @ bucketName options"

text \<open>The invalidation request the loop builds for a distribution at a clock reading.\<close>

definition invalidationRequest :: "nat \<Rightarrow> string \<Rightarrow> CreateInvalidationCommandInput" where
  "invalidationRequest now distributionId =
     \<lparr>DistributionId = distributionId,
      CallerReference = callerReference now distributionId,
      PathsQuantity = 1,
      PathsItems = [''/*'']\<rparr>"

text \<open>No two neighbouring hyphens.\<close>

fun noHyphenRun :: "string \<Rightarrow> bool" where
  "noHyphenRun (c # d # cs) = (\<not> (c = CHR ''-'' \<and> d = CHR ''-'') \<and> noHyphenRun (d # cs))"
| "noHyphenRun _ = True"

section \<open>Sample surroundings for the closed instances\<close>

definition examplePage1 :: ListDistributionsCommandOutput where
  "examplePage1 =
     \<lparr>Items = Some
        [\<lparr>Id' = Some ''E1'',
          Origins = Some
            [\<lparr>DomainName = Some ''otherbucket.s3.amazonaws.com''\<rparr>,
             \<lparr>DomainName = Some ''mybucket.s3.amazonaws.com''\<rparr>,
             \<lparr>DomainName = Some ''mybucket.s3.eu-west-1.amazonaws.com''\<rparr>]\<rparr>],
      NextMarker = Some ''m1''\<rparr>"

definition examplePage2 :: ListDistributionsCommandOutput where
  "examplePage2 =
     \<lparr>Items = Some
        [\<lparr>Id' = Some ''E2'',
          Origins = Some [\<lparr>DomainName = Some ''mybucket.s3.amazonaws.com''\<rparr>]\<rparr>,
         \<lparr>Id' = Some ''E3'',
          Origins = Some [\<lparr>DomainName = Some ''MyBucket.s3.amazonaws.com''\<rparr>]\<rparr>],
      NextMarker = None\<rparr>"

definition emptyPage :: ListDistributionsCommandOutput where
  "emptyPage = \<lparr>Items = Some [], NextMarker = None\<rparr>"

definition exampleService :: ListDistributionsService where
  "exampleService k marker =
     (if marker = None then Inr examplePage1
      else if marker = Some ''m1'' then Inr examplePage2
      else Inl (ServiceError ''InvalidArgument''))"

definition exampleFiles :: SharedConfigFiles where
  "exampleFiles =
     \<lparr>configFile = Some [''default'' \<mapsto> [''output'' \<mapsto> ''json'']],
      credentialsFile = Some [''default'' \<mapsto> [''region'' \<mapsto> ''eu-west-1'']]\<rparr>"

text \<open>A run whose clock does not advance between the invalidation requests.\<close>

definition exampleEnv :: Env where
  "exampleEnv =
     \<lparr>sharedConfigFiles = exampleFiles,
      processEnv = \<lparr>AWS_REGION = None, AWS_DEFAULT_REGION = Some ''eu-central-1''\<rparr>,
      sync = (\<lambda>path target. None),
      listDistributions = exampleService,
      createInvalidation = (\<lambda>k request. None),
      dateNow = (\<lambda>k. 1700000000000)\<rparr>"

definition failingSyncEnv :: Env where
  "failingSyncEnv = exampleEnv\<lparr>sync := (\<lambda>path target. Some (ServiceError ''Access Denied''))\<rparr>"

definition exampleOptions :: DeployWebsiteOptions where
  "exampleOptions = \<lparr>bucketName = ''mybucket'', profile = None, websitePath = None\<rparr>"

text \<open>A page that lists one distribution of another bucket.\<close>

definition noMatchPage :: ListDistributionsCommandOutput where
  "noMatchPage =
     \<lparr>Items = Some
        [\<lparr>Id' = Some ''E9'',
          Origins = Some [\<lparr>DomainName = Some ''otherbucket.s3.amazonaws.com''\<rparr>]\<rparr>],
      NextMarker = None\<rparr>"

text \<open>A page that lists the same distribution twice.\<close>

definition duplicatePage :: ListDistributionsCommandOutput where
  "duplicatePage =
     \<lparr>Items = Some
        [\<lparr>Id' = Some ''E1'',
          Origins = Some [\<lparr>DomainName = Some ''mybucket.s3.amazonaws.com''\<rparr>]\<rparr>,
         \<lparr>Id' = Some ''E1'',
          Origins = Some [\<lparr>DomainName = Some ''mybucket.s3.amazonaws.com''\<rparr>]\<rparr>],
      NextMarker = None\<rparr>"

definition duplicateListingEnv :: Env where
  "duplicateListingEnv =
     exampleEnv\<lparr>listDistributions := (\<lambda>k marker. Inr duplicatePage), dateNow := (\<lambda>k. 7)\<rparr>"

text \<open>
  Surroundings in which the section "default" carries a region, in the config file and
  in the credentials file alone, while both environment variables are set.
\<close>

definition defaultRegionEnv :: Env where
  "defaultRegionEnv =
     exampleEnv
       \<lparr>sharedConfigFiles :=
          \<lparr>configFile = Some [''default'' \<mapsto> [''region'' \<mapsto> ''sa-east-1'']],
           credentialsFile = None\<rparr>,
        processEnv := \<lparr>AWS_REGION = Some ''us-west-2'', AWS_DEFAULT_REGION = Some ''eu-west-1''\<rparr>\<rparr>"

definition credentialsRegionEnv :: Env where
  "credentialsRegionEnv =
     exampleEnv
       \<lparr>sharedConfigFiles :=
          \<lparr>configFile = Some Map.empty,
           credentialsFile = Some [''default'' \<mapsto> [''region'' \<mapsto> ''ap-south-1'']]\<rparr>,
        processEnv := \<lparr>AWS_REGION = Some ''us-west-2'', AWS_DEFAULT_REGION = Some ''eu-west-1''\<rparr>\<rparr>"

section \<open>Evaluation of the sample surroundings\<close>

lemmas example_defs =
  exampleEnv_def exampleOptions_def exampleFiles_def exampleService_def
  examplePage1_def examplePage2_def emptyPage_def failingSyncEnv_def
  noMatchPage_def duplicatePage_def duplicateListingEnv_def
  defaultRegionEnv_def credentialsRegionEnv_def

lemmas run_defs =
  deployWebsite_def invalidateDistributions_def findDistributionsForBucket_def
  getRegionFromProfile_def selectProfileConfig_def lookupProfile_def regionOf_def
  truthy_def orElse_def itemsOf_def originsOf_def originMatches_def startsWith_def
  callerReference_def decimal.simps digitChar_def syncSource_def syncTarget_def Let_def

section \<open>Bucket-name derivation: properties\<close>

text \<open>
  C9. \<open>getWebsiteBucketName\<close> maps "example.com" to "example-com-website" and
  "www.My-Site.org" to "www-my-site-org-website". The function reads nothing but its
  argument, so every domain \<open>D\<close> has exactly one result.
\<close>

theorem getWebsiteBucketName_examples:
  "getWebsiteBucketName ''example.com'' = Inr ''example-com-website'' \<and>
   getWebsiteBucketName ''www.My-Site.org'' = Inr ''www-my-site-org-website'' \<and>
   (\<exists>!name. getWebsiteBucketName D = name)"
proof (intro conjI)
  show "getWebsiteBucketName ''example.com'' = Inr ''example-com-website''"
    by code_simp
  show "getWebsiteBucketName ''www.My-Site.org'' = Inr ''www-my-site-org-website''"
    by code_simp
  show "\<exists>!name. getWebsiteBucketName D = name"
    by simp
qed









text \<open>
  C3 does not hold of the code: for the empty domain (and for every domain without a
  letter or digit of a-z, 0-9) the sanitized form is empty, the call succeeds, and the
  name it returns is "-website", which starts with a hyphen.
\<close>

theorem getWebsiteBucketName_empty_domain:
  "getWebsiteBucketName [] = Inr ''-website'' \<and> hd ''-website'' = CHR ''-''"
  by code_simp

lemma noHyphenRun_Cons:
  "noHyphenRun (c # cs) \<longleftrightarrow> (cs = [] \<or> (\<not> (c = CHR ''-'' \<and> hd cs = CHR ''-'') \<and> noHyphenRun cs))"
  by (cases cs) auto

lemma noHyphenRun_append:
  "noHyphenRun (xs @ ys) \<longleftrightarrow>
     noHyphenRun xs \<and> noHyphenRun ys \<and>
     (xs = [] \<or> ys = [] \<or> \<not> (last xs = CHR ''-'' \<and> hd ys = CHR ''-''))"
proof (induction xs)
  case Nil
  show ?case by simp
next
  case (Cons x xs)
  show ?case
  proof (cases xs)
    case Nil
    then show ?thesis by (cases ys) auto
  next
    case (Cons x' xs')
    with Cons.IH show ?thesis by auto
  qed
qed

lemma collapseHyphens_set: "set (collapseHyphens s) \<subseteq> set s"
proof (induction s rule: collapseHyphens.induct)
  case 1
  show ?case by simp
next
  case (2 c cs)
  have "set (dropWhile (\<lambda>d. d = CHR ''-'') cs) \<subseteq> set cs"
    by (rule set_dropWhileD [THEN subsetI])
  with 2 show ?case by auto
qed

lemma collapseHyphens_Nil: "collapseHyphens s = [] \<longleftrightarrow> s = []"
  by (cases s) auto

lemma collapseHyphens_hd: "s \<noteq> [] \<Longrightarrow> hd (collapseHyphens s) = hd s"
  by (cases s) auto

lemma collapseHyphens_noHyphenRun: "noHyphenRun (collapseHyphens s)"
proof (induction s rule: collapseHyphens.induct)
  case 1
  show ?case by simp
next
  case (2 c cs)
  show ?case
  proof (cases "c = CHR ''-''")
    case True
    let ?r = "dropWhile (\<lambda>d. d = CHR ''-'') cs"
    have "?r \<noteq> [] \<Longrightarrow> hd ?r \<noteq> CHR ''-''"
      using hd_dropWhile [of "\<lambda>d. d = CHR ''-''" cs] by simp
    then have "collapseHyphens ?r \<noteq> [] \<Longrightarrow> hd (collapseHyphens ?r) \<noteq> CHR ''-''"
      by (simp add: collapseHyphens_Nil collapseHyphens_hd)
    with True 2 show ?thesis by (auto simp: noHyphenRun_Cons)
  next
    case False
    with 2 show ?thesis by (auto simp: noHyphenRun_Cons)
  qed
qed

lemma trimHyphens_set: "set (trimHyphens s) \<subseteq> set s"
  by (auto simp: trimHyphens_def Let_def split: list.splits if_splits dest: in_set_butlastD)

lemma trimHyphens_edges:
  assumes "noHyphenRun s" and "trimHyphens s \<noteq> []"
  shows "noHyphenRun (trimHyphens s) \<and> hd (trimHyphens s) \<noteq> CHR ''-'' \<and>
         last (trimHyphens s) \<noteq> CHR ''-''"
proof -
  define s1 where "s1 = (case s of [] \<Rightarrow> [] | c # cs \<Rightarrow> if c = CHR ''-'' then cs else s)"
  have t: "trimHyphens s = (if s1 \<noteq> [] \<and> last s1 = CHR ''-'' then butlast s1 else s1)"
    by (simp add: trimHyphens_def s1_def)
  have n1: "noHyphenRun s1" and h1: "s1 \<noteq> [] \<Longrightarrow> hd s1 \<noteq> CHR ''-''"
    using assms(1) by (auto simp: s1_def noHyphenRun_Cons split: list.splits)
  show ?thesis
  proof (cases "s1 \<noteq> [] \<and> last s1 = CHR ''-''")
    case True
    then have s1: "s1 = butlast s1 @ [CHR ''-'']"
      by (metis append_butlast_last_id)
    from True t have tb: "trimHyphens s = butlast s1" by simp
    with assms(2) have ne: "butlast s1 \<noteq> []" by simp
    from n1 s1 have "noHyphenRun (butlast s1 @ [CHR ''-''])" by simp
    then have "noHyphenRun (butlast s1)" and "last (butlast s1) \<noteq> CHR ''-''"
      using ne by (auto simp: noHyphenRun_append)
    moreover have "hd (butlast s1) = hd s1"
      using ne s1 by (metis hd_append2)
    ultimately show ?thesis using tb h1 True by simp
  next
    case False
    with t have "trimHyphens s = s1" by auto
    with False n1 h1 assms(2) show ?thesis by auto
  qed
qed

lemma sanitized_valid: "c \<in> set (sanitized domain) \<Longrightarrow> validChar c"
proof -
  assume "c \<in> set (sanitized domain)"
  then have "c \<in> set (removeInvalid (replaceDots (toLowerCase domain)))"
    using trimHyphens_set collapseHyphens_set unfolding sanitized_def by blast
  then show "validChar c" by (simp add: removeInvalid_def)
qed

lemma sanitized_edges:
  "sanitized domain \<noteq> [] \<Longrightarrow>
   noHyphenRun (sanitized domain) \<and> hd (sanitized domain) \<noteq> CHR ''-'' \<and>
   last (sanitized domain) \<noteq> CHR ''-''"
  unfolding sanitized_def
  by (rule trimHyphens_edges [OF collapseHyphens_noHyphenRun])

lemma suffix_valid: "c \<in> set ''-website'' \<Longrightarrow> validChar c"
  by (auto simp: validChar_def less_eq_char_def)

text \<open>
  Apart from the empty sanitized form, every name the function returns meets the naming
  rules: characters of a-z, 0-9 and the hyphen only, 3 to 63 of them, no hyphen at
  either end, no two hyphens in a row.
\<close>

lemma getWebsiteBucketName_compliant:
  assumes "sanitized domain \<noteq> []" and "getWebsiteBucketName domain = Inr name"
  shows "(\<forall>c \<in> set name. validChar c) \<and> 3 \<le> length name \<and> length name \<le> 63 \<and>
         hd name \<noteq> CHR ''-'' \<and> last name \<noteq> CHR ''-'' \<and> noHyphenRun name"
proof -
  from assms(2) have name: "name = sanitized domain @ ''-website''" and len: "length name \<le> 63"
    by (auto simp: getWebsiteBucketName_def Let_def split: if_splits)
  from sanitized_edges [OF assms(1)] have
    e: "noHyphenRun (sanitized domain)" "hd (sanitized domain) \<noteq> CHR ''-''"
       "last (sanitized domain) \<noteq> CHR ''-''" by auto
  have v: "\<forall>c \<in> set name. validChar c"
    using sanitized_valid suffix_valid unfolding name by auto
  have r: "noHyphenRun name"
    unfolding name using e by (simp add: noHyphenRun_append)
  have h: "hd name \<noteq> CHR ''-''" using assms(1) e(2) unfolding name by simp
  have l: "last name \<noteq> CHR ''-''" unfolding name by simp
  have "3 \<le> length name" unfolding name by simp
  with v len h l r show ?thesis by blast
qed

section \<open>Region resolution: properties\<close>

lemma getRegionFromProfile_firstNonEmpty:
  "getRegionFromProfile configFiles env prof =
     firstNonEmpty
       [regionOf (selectProfileConfig configFiles (if prof \<noteq> [] then prof else ''default'')),
        AWS_REGION env, AWS_DEFAULT_REGION env]
       ''us-east-1''"
  by (simp add: getRegionFromProfile_def truthy_def orElse_def Let_def
           split: option.splits)

text \<open>
  C1, as stated, fails: the config file has a section for the profile "default" without
  a region, the credentials file gives the region "eu-west-1" for the same profile, no
  environment variable is set. The order of the claim yields "eu-west-1"; the code
  never reads the credentials file and returns "us-east-1".
\<close>

theorem getRegionFromProfile_credentials_skipped:
  "getRegionFromProfile
     \<lparr>configFile = Some [''default'' \<mapsto> [''output'' \<mapsto> ''json'']],
      credentialsFile = Some [''default'' \<mapsto> [''region'' \<mapsto> ''eu-west-1'']]\<rparr>
     \<lparr>AWS_REGION = None, AWS_DEFAULT_REGION = None\<rparr> [] = ''us-east-1'' \<and>
   regionBySpecOrder
     \<lparr>configFile = Some [''default'' \<mapsto> [''output'' \<mapsto> ''json'']],
      credentialsFile = Some [''default'' \<mapsto> [''region'' \<mapsto> ''eu-west-1'']]\<rparr>
     \<lparr>AWS_REGION = None, AWS_DEFAULT_REGION = None\<rparr> [] = ''eu-west-1''"
  by (simp add: getRegionFromProfile_def regionBySpecOrder_def selectProfileConfig_def
        lookupProfile_def regionOf_def truthy_def orElse_def)

text \<open>
  C1, amended. For every optional profile name (the empty name stands for "default"),
  region resolution takes the profile's section from the config file when that file has
  a section for the profile, and from the credentials file only when it has none; it
  returns the first non-empty value among the region of that one section, AWS_REGION,
  AWS_DEFAULT_REGION and "us-east-1". This is the order of the claim whenever the config
  file has no section for the profile, or its section has a non-empty region, or the
  credentials file gives the profile no non-empty region.
\<close>

theorem getRegionFromProfile_resolution_order:
  "getRegionFromProfile configFiles env prof =
     firstNonEmpty
       [regionOf (selectProfileConfig configFiles (if prof \<noteq> [] then prof else ''default'')),
        AWS_REGION env, AWS_DEFAULT_REGION env]
       ''us-east-1'' \<and>
   selectProfileConfig configFiles name =
     (case lookupProfile (configFile configFiles) name of
        Some section \<Rightarrow> Some section
      | None \<Rightarrow> lookupProfile (credentialsFile configFiles) name) \<and>
   (lookupProfile (configFile configFiles) (if prof \<noteq> [] then prof else ''default'') = None \<or>
    truthy (regionOf (lookupProfile (configFile configFiles)
                        (if prof \<noteq> [] then prof else ''default''))) \<or>
    \<not> truthy (regionOf (lookupProfile (credentialsFile configFiles)
                          (if prof \<noteq> [] then prof else ''default'')))
    \<longrightarrow> getRegionFromProfile configFiles env prof = regionBySpecOrder configFiles env prof)"
  unfolding getRegionFromProfile_firstNonEmpty
  by (auto simp add: regionBySpecOrder_def selectProfileConfig_def truthy_def regionOf_def
        Let_def split: option.splits)

text \<open>
  An instance: the profile "prod" has its region in the config file, and both environment
  variables are set; the profile's region wins, as in the order of the claim.
\<close>

theorem getRegionFromProfile_resolution_order_witness:
  "truthy (regionOf (lookupProfile (Some [''prod'' \<mapsto> [''region'' \<mapsto> ''ap-south-1'']]) ''prod'')) \<and>
   getRegionFromProfile
     \<lparr>configFile = Some [''prod'' \<mapsto> [''region'' \<mapsto> ''ap-south-1'']],
      credentialsFile = None\<rparr>
     \<lparr>AWS_REGION = Some ''us-west-2'', AWS_DEFAULT_REGION = Some ''eu-west-1''\<rparr> ''prod''
   = ''ap-south-1'' \<and>
   regionBySpecOrder
     \<lparr>configFile = Some [''prod'' \<mapsto> [''region'' \<mapsto> ''ap-south-1'']],
      credentialsFile = None\<rparr>
     \<lparr>AWS_REGION = Some ''us-west-2'', AWS_DEFAULT_REGION = Some ''eu-west-1''\<rparr> ''prod''
   = ''ap-south-1''"
  using getRegionFromProfile_resolution_order
    [of "\<lparr>configFile = Some [''prod'' \<mapsto> [''region'' \<mapsto> ''ap-south-1'']],
          credentialsFile = None\<rparr>"
        "\<lparr>AWS_REGION = Some ''us-west-2'', AWS_DEFAULT_REGION = Some ''eu-west-1''\<rparr>"
        "''prod''" "''prod''"]
  by (simp add: regionBySpecOrder_def selectProfileConfig_def lookupProfile_def regionOf_def
        truthy_def)

section \<open>Distribution discovery: properties\<close>

lemma startsWith_iff: "startsWith s p \<longleftrightarrow> (\<exists>rest. s = p @ rest)"
  unfolding startsWith_def
  by (metis append_eq_conv_conj append_take_drop_id)

lemma scanOrigins_no_match:
  "\<forall>origin \<in> set origins. \<not> originMatches bucket origin \<Longrightarrow>
   scanOrigins bucket dist origins ids = ids"
  by (induction origins) auto

lemma scanOrigins_no_id:
  "\<not> truthy (Id' dist) \<Longrightarrow> scanOrigins bucket dist origins ids = ids"
  by (induction origins) auto

lemma scanOrigins_first_match:
  assumes "\<forall>origin \<in> set before. \<not> originMatches bucket origin"
    and "originMatches bucket origin" and "Id' dist = Some i" and "i \<noteq> []"
  shows "scanOrigins bucket dist (before @ origin # after) ids = ids @ [i]"
  using assms by (induction before) (auto simp: truthy_def)

lemma scanOrigins_distributionMatch:
  "scanOrigins bucket dist (originsOf dist) ids = ids @ distributionMatch bucket dist"
proof (cases "truthy (Id' dist) \<and> (\<exists>origin \<in> set (originsOf dist). originMatches bucket origin)")
  case True
  then obtain i where i: "Id' dist = Some i" "i \<noteq> []"
    by (auto simp: truthy_def split: option.splits)
  from True obtain before origin after where
    sp: "originsOf dist = before @ origin # after" "originMatches bucket origin"
        "\<forall>o' \<in> set before. \<not> originMatches bucket o'"
    using split_list_first_prop [of "originsOf dist" "originMatches bucket"] by blast
  have "scanOrigins bucket dist (before @ origin # after) ids = ids @ [i]"
    using scanOrigins_first_match [OF sp(3) sp(2) i] .
  moreover have "distributionMatch bucket dist = [i]"
    using True i by (simp add: distributionMatch_def)
  ultimately show ?thesis using sp(1) by simp
next
  case False
  then have "distributionMatch bucket dist = []"
    by (auto simp: distributionMatch_def truthy_def split: option.splits)
  moreover have "scanOrigins bucket dist (originsOf dist) ids = ids"
    using False scanOrigins_no_match scanOrigins_no_id by blast
  ultimately show ?thesis by simp
qed

lemma scanDistributions_distributionMatch:
  "scanDistributions bucket dists ids = ids @ concat (map (distributionMatch bucket) dists)"
  by (induction dists arbitrary: ids) (simp_all add: scanOrigins_distributionMatch)

lemma distributionMatch_at_most_one: "length (distributionMatch bucket dist) \<le> 1"
  by (simp add: distributionMatch_def split: option.splits)

lemma listLoop_linkedPages:
  "linkedPages send k marker pages \<Longrightarrow> length pages \<le> fuel \<Longrightarrow>
   listLoop fuel send bucket k marker ids =
     (Returned (ids @ concat (map (pageMatches bucket) pages)),
      marker # map NextMarker (butlast pages))"
proof (induction send k marker pages arbitrary: fuel ids rule: linkedPages.induct)
  case (1 send k marker)
  then show ?case by simp
next
  case (2 send k marker page)
  then obtain fuel' where "fuel = Suc fuel'" by (cases fuel) auto
  with 2 show ?case
    by (simp add: scanDistributions_distributionMatch pageMatches_def)
next
  case (3 send k marker page following pages)
  then obtain fuel' where f: "fuel = Suc fuel'" by (cases fuel) auto
  from 3 have l: "linkedPages send (Suc k) (NextMarker page) (following # pages)"
    and le: "length (following # pages) \<le> fuel'" using f by auto
  note IH = "3.IH" [OF l le]
  from 3 show ?case
    by (simp add: f IH scanDistributions_distributionMatch pageMatches_def)
qed

lemma findDistributionsForBucket_linkedPages:
  "linkedPages send 0 None pages \<Longrightarrow> length pages \<le> fuel \<Longrightarrow>
   findDistributionsForBucket fuel send bucket =
     (Returned (concat (map (pageMatches bucket) pages)),
      None # map NextMarker (butlast pages))"
  using listLoop_linkedPages [of send 0 None pages fuel bucket "[]"]
  by (simp add: findDistributionsForBucket_def)

text \<open>
  C4. An origin matches the bucket exactly when its domain name begins with the bucket
  name followed by ".s3", compared character by character. Scanning a list of
  distributions appends, for each distribution in order, at most one identifier: the
  identifier of the distribution when one of its origins matches. The identifier is
  recorded at the first matching origin, whatever origins follow it; a distribution
  without a matching origin adds nothing. What discovery returns for a listing of linked
  pages is the list of these identifiers over all pages, in order; and when no origin of
  any listed distribution matches, it returns the empty list and not an error.
\<close>

theorem findDistributionsForBucket_matching:
  "(originMatches bucket origin \<longleftrightarrow>
      (\<exists>rest. (case DomainName origin of Some s \<Rightarrow> s | None \<Rightarrow> []) = bucket @ ''.s3'' @ rest)) \<and>
   scanDistributions bucket dists ids = ids @ concat (map (distributionMatch bucket) dists) \<and>
   length (distributionMatch bucket dist) \<le> 1 \<and>
   ((\<forall>o' \<in> set before. \<not> originMatches bucket o') \<and> originMatches bucket origin \<and>
    Id' dist = Some i \<and> i \<noteq> [] \<longrightarrow>
      scanOrigins bucket dist (before @ origin # after) ids = ids @ [i]) \<and>
   ((\<forall>o' \<in> set (originsOf other). \<not> originMatches bucket o') \<longrightarrow>
      scanOrigins bucket other (originsOf other) ids = ids \<and>
      distributionMatch bucket other = []) \<and>
   (linkedPages send 0 None pages \<and> length pages \<le> fuel \<longrightarrow>
      fst (findDistributionsForBucket fuel send bucket) =
        Returned (concat (map (pageMatches bucket) pages))) \<and>
   (linkedPages send 0 None pages \<and> length pages \<le> fuel \<and>
    (\<forall>page \<in> set pages. \<forall>d \<in> set (itemsOf page).
        \<forall>o' \<in> set (originsOf d). \<not> originMatches bucket o') \<longrightarrow>
      fst (findDistributionsForBucket fuel send bucket) = Returned [])"
proof (intro conjI impI)
  show "originMatches bucket origin \<longleftrightarrow>
      (\<exists>rest. (case DomainName origin of Some s \<Rightarrow> s | None \<Rightarrow> []) = bucket @ ''.s3'' @ rest)"
    by (simp add: originMatches_def startsWith_iff)
  show "scanDistributions bucket dists ids = ids @ concat (map (distributionMatch bucket) dists)"
    by (rule scanDistributions_distributionMatch)
  show "length (distributionMatch bucket dist) \<le> 1"
    by (rule distributionMatch_at_most_one)
next
  assume "(\<forall>o' \<in> set before. \<not> originMatches bucket o') \<and> originMatches bucket origin \<and>
    Id' dist = Some i \<and> i \<noteq> []"
  then show "scanOrigins bucket dist (before @ origin # after) ids = ids @ [i]"
    using scanOrigins_first_match by blast
next
  assume "\<forall>o' \<in> set (originsOf other). \<not> originMatches bucket o'"
  then show "scanOrigins bucket other (originsOf other) ids = ids"
    by (rule scanOrigins_no_match)
next
  assume "\<forall>o' \<in> set (originsOf other). \<not> originMatches bucket o'"
  then show "distributionMatch bucket other = []"
    by (auto simp: distributionMatch_def split: option.splits)
next
  assume "linkedPages send 0 None pages \<and> length pages \<le> fuel"
  then show "fst (findDistributionsForBucket fuel send bucket) =
        Returned (concat (map (pageMatches bucket) pages))"
    using findDistributionsForBucket_linkedPages [of send pages fuel bucket] by simp
next
  assume a: "linkedPages send 0 None pages \<and> length pages \<le> fuel \<and>
    (\<forall>page \<in> set pages. \<forall>d \<in> set (itemsOf page).
        \<forall>o' \<in> set (originsOf d). \<not> originMatches bucket o')"
  then have "\<forall>page \<in> set pages. pageMatches bucket page = []"
    by (auto simp: pageMatches_def distributionMatch_def split: option.splits)
  then have "concat (map (pageMatches bucket) pages) = []" by simp
  with a show "fst (findDistributionsForBucket fuel send bucket) = Returned []"
    using findDistributionsForBucket_linkedPages [of send pages fuel bucket] by simp
qed

lemma examplePages_matches:
  "pageMatches ''mybucket'' examplePage1 = [''E1'']"
  "pageMatches ''mybucket'' examplePage2 = [''E2'']"
  by (simp_all add: example_defs pageMatches_def distributionMatch_def originMatches_def
        startsWith_def originsOf_def itemsOf_def)

text \<open>
  An instance: for the bucket "mybucket" the origin "mybucket.s3.amazonaws.com" matches,
  "otherbucket.s3.amazonaws.com" and "MyBucket.s3.amazonaws.com" do not; the identifier
  "E1" is recorded once although two origins match; discovery over the two sample pages
  returns "E1" and "E2"; discovery over a page that lists only a distribution of
  another bucket returns the empty list.
\<close>

theorem findDistributionsForBucket_matching_witness:
  "originMatches ''mybucket'' \<lparr>DomainName = Some ''mybucket.s3.amazonaws.com''\<rparr> \<and>
   \<not> originMatches ''mybucket'' \<lparr>DomainName = Some ''otherbucket.s3.amazonaws.com''\<rparr> \<and>
   \<not> originMatches ''mybucket'' \<lparr>DomainName = Some ''MyBucket.s3.amazonaws.com''\<rparr> \<and>
   scanOrigins ''mybucket''
     \<lparr>Id' = Some ''E1'', Origins = None\<rparr>
     ([\<lparr>DomainName = Some ''otherbucket.s3.amazonaws.com''\<rparr>]
      @ \<lparr>DomainName = Some ''mybucket.s3.amazonaws.com''\<rparr>
      # [\<lparr>DomainName = Some ''mybucket.s3.eu-west-1.amazonaws.com''\<rparr>]) [] = [''E1''] \<and>
   scanOrigins ''mybucket''
     \<lparr>Id' = Some ''E3'', Origins = Some [\<lparr>DomainName = Some ''MyBucket.s3.amazonaws.com''\<rparr>]\<rparr>
     [\<lparr>DomainName = Some ''MyBucket.s3.amazonaws.com''\<rparr>] [] = [] \<and>
   linkedPages exampleService 0 None [examplePage1, examplePage2] \<and>
   fst (findDistributionsForBucket (Suc (Suc 0)) exampleService ''mybucket'') =
     Returned [''E1'', ''E2''] \<and>
   linkedPages (\<lambda>k marker. Inr noMatchPage) 0 None [noMatchPage] \<and>
   fst (findDistributionsForBucket (Suc 0) (\<lambda>k marker. Inr noMatchPage) ''mybucket'') =
     Returned []"
proof -
  have l2: "linkedPages exampleService 0 None [examplePage1, examplePage2]"
    by (simp add: example_defs truthy_def)
  have l1: "linkedPages (\<lambda>k marker. Inr noMatchPage) 0 None [noMatchPage]"
    by (simp add: example_defs truthy_def)
  have nm: "\<forall>page \<in> set [noMatchPage]. \<forall>d \<in> set (itemsOf page).
        \<forall>o' \<in> set (originsOf d). \<not> originMatches ''mybucket'' o'"
    by (simp add: example_defs itemsOf_def originsOf_def originMatches_def startsWith_def)
  have m: "originMatches ''mybucket'' \<lparr>DomainName = Some ''mybucket.s3.amazonaws.com''\<rparr>"
    "\<not> originMatches ''mybucket'' \<lparr>DomainName = Some ''otherbucket.s3.amazonaws.com''\<rparr>"
    "\<not> originMatches ''mybucket'' \<lparr>DomainName = Some ''MyBucket.s3.amazonaws.com''\<rparr>"
    by (simp_all add: originMatches_def startsWith_def)
  note t1 = findDistributionsForBucket_matching
    [where bucket = "''mybucket''"
       and origin = "\<lparr>DomainName = Some ''mybucket.s3.amazonaws.com''\<rparr>"
       and dists = "[]" and ids = "[]"
       and dist = "\<lparr>Id' = Some ''E1'', Origins = None\<rparr>"
       and before = "[\<lparr>DomainName = Some ''otherbucket.s3.amazonaws.com''\<rparr>]"
       and after = "[\<lparr>DomainName = Some ''mybucket.s3.eu-west-1.amazonaws.com''\<rparr>]"
       and i = "''E1''"
       and other = "\<lparr>Id' = Some ''E3'',
                      Origins = Some [\<lparr>DomainName = Some ''MyBucket.s3.amazonaws.com''\<rparr>]\<rparr>"
       and send = exampleService
       and pages = "[examplePage1, examplePage2]"
       and fuel = "Suc (Suc 0)"]
  note t2 = findDistributionsForBucket_matching
    [where bucket = "''mybucket''"
       and origin = "\<lparr>DomainName = Some ''mybucket.s3.amazonaws.com''\<rparr>"
       and dists = "[]" and ids = "[]"
       and dist = "\<lparr>Id' = Some ''E1'', Origins = None\<rparr>"
       and before = "[]" and after = "[]" and i = "''E1''"
       and other = "\<lparr>Id' = Some ''E3'', Origins = None\<rparr>"
       and send = "\<lambda>k marker. Inr noMatchPage"
       and pages = "[noMatchPage]"
       and fuel = "Suc 0"]
  have b1: "\<forall>o' \<in> set [\<lparr>DomainName = Some ''otherbucket.s3.amazonaws.com''\<rparr>].
      \<not> originMatches ''mybucket'' o'"
    using m by simp
  have o3: "\<forall>o' \<in> set (originsOf \<lparr>Id' = Some ''E3'',
        Origins = Some [\<lparr>DomainName = Some ''MyBucket.s3.amazonaws.com''\<rparr>]\<rparr>).
      \<not> originMatches ''mybucket'' o'"
    using m by (simp add: originsOf_def)
  from t1 have t1a: "(\<forall>o' \<in> set [\<lparr>DomainName = Some ''otherbucket.s3.amazonaws.com''\<rparr>].
        \<not> originMatches ''mybucket'' o') \<and>
      originMatches ''mybucket'' \<lparr>DomainName = Some ''mybucket.s3.amazonaws.com''\<rparr> \<and>
      Id' \<lparr>Id' = Some ''E1'', Origins = None\<rparr> = Some ''E1'' \<and> ''E1'' \<noteq> [] \<longrightarrow>
      scanOrigins ''mybucket'' \<lparr>Id' = Some ''E1'', Origins = None\<rparr>
        ([\<lparr>DomainName = Some ''otherbucket.s3.amazonaws.com''\<rparr>]
         @ \<lparr>DomainName = Some ''mybucket.s3.amazonaws.com''\<rparr>
         # [\<lparr>DomainName = Some ''mybucket.s3.eu-west-1.amazonaws.com''\<rparr>]) [] = [] @ [''E1'']"
    by (elim conjE)
  have a: "scanOrigins ''mybucket''
     \<lparr>Id' = Some ''E1'', Origins = None\<rparr>
     ([\<lparr>DomainName = Some ''otherbucket.s3.amazonaws.com''\<rparr>]
      @ \<lparr>DomainName = Some ''mybucket.s3.amazonaws.com''\<rparr>
      # [\<lparr>DomainName = Some ''mybucket.s3.eu-west-1.amazonaws.com''\<rparr>]) [] = [''E1'']"
    using t1a b1 m(1) by simp
  from t1 have t1b: "(\<forall>o' \<in> set (originsOf \<lparr>Id' = Some ''E3'',
        Origins = Some [\<lparr>DomainName = Some ''MyBucket.s3.amazonaws.com''\<rparr>]\<rparr>).
        \<not> originMatches ''mybucket'' o') \<longrightarrow>
      scanOrigins ''mybucket''
        \<lparr>Id' = Some ''E3'', Origins = Some [\<lparr>DomainName = Some ''MyBucket.s3.amazonaws.com''\<rparr>]\<rparr>
        (originsOf \<lparr>Id' = Some ''E3'',
           Origins = Some [\<lparr>DomainName = Some ''MyBucket.s3.amazonaws.com''\<rparr>]\<rparr>) [] = [] \<and>
      distributionMatch ''mybucket''
        \<lparr>Id' = Some ''E3'', Origins = Some [\<lparr>DomainName = Some ''MyBucket.s3.amazonaws.com''\<rparr>]\<rparr>
        = []"
    by (elim conjE)
  have b: "scanOrigins ''mybucket''
     \<lparr>Id' = Some ''E3'', Origins = Some [\<lparr>DomainName = Some ''MyBucket.s3.amazonaws.com''\<rparr>]\<rparr>
     [\<lparr>DomainName = Some ''MyBucket.s3.amazonaws.com''\<rparr>] [] = []"
    using t1b o3 by (simp add: originsOf_def)
  from t1 have t1c: "linkedPages exampleService 0 None [examplePage1, examplePage2] \<and>
      length [examplePage1, examplePage2] \<le> Suc (Suc 0) \<longrightarrow>
      fst (findDistributionsForBucket (Suc (Suc 0)) exampleService ''mybucket'') =
        Returned (concat (map (pageMatches ''mybucket'') [examplePage1, examplePage2]))"
    by (elim conjE)
  have c: "fst (findDistributionsForBucket (Suc (Suc 0)) exampleService ''mybucket'') =
     Returned [''E1'', ''E2'']"
    using t1c l2 by (simp add: examplePages_matches)
  from t2 have t2a: "linkedPages (\<lambda>k marker. Inr noMatchPage) 0 None [noMatchPage] \<and>
      length [noMatchPage] \<le> Suc 0 \<and>
      (\<forall>page \<in> set [noMatchPage]. \<forall>d \<in> set (itemsOf page).
          \<forall>o' \<in> set (originsOf d). \<not> originMatches ''mybucket'' o') \<longrightarrow>
      fst (findDistributionsForBucket (Suc 0) (\<lambda>k marker. Inr noMatchPage) ''mybucket'') =
        Returned []"
    by (elim conjE)
  have d: "fst (findDistributionsForBucket (Suc 0) (\<lambda>k marker. Inr noMatchPage) ''mybucket'') =
     Returned []"
    using t2a l1 nm by simp
  from m a b l2 c l1 d show ?thesis by simp
qed

text \<open>
  C5. When the service hands out \<open>N\<close> pages linked by continuation markers, the loop
  (given at least \<open>N\<close> rounds) returns after exactly \<open>N\<close> requests: the first without
  a marker, the \<open>k\<close>-th with the marker of page \<open>k - 1\<close>, none after the page that
  carries no marker. The result holds the matches of all pages in order. For a single
  page without a marker and without a matching distribution the result is the empty
  list after one request.
\<close>

theorem findDistributionsForBucket_pagination:
  "linkedPages send 0 None pages \<Longrightarrow> length pages \<le> fuel \<Longrightarrow>
   findDistributionsForBucket fuel send bucket =
     (Returned (concat (map (pageMatches bucket) pages)),
      None # map NextMarker (butlast pages)) \<and>
   length (snd (findDistributionsForBucket fuel send bucket)) = length pages \<and>
   (\<forall>page. pages = [page] \<and> pageMatches bucket page = [] \<longrightarrow>
      findDistributionsForBucket fuel send bucket = (Returned [], [None]))"
proof -
  assume l: "linkedPages send 0 None pages" and f: "length pages \<le> fuel"
  have r: "findDistributionsForBucket fuel send bucket =
     (Returned (concat (map (pageMatches bucket) pages)),
      None # map NextMarker (butlast pages))"
    using findDistributionsForBucket_linkedPages [OF l f] .
  from l have "pages \<noteq> []" by (cases pages) auto
  then have n: "length (None # map NextMarker (butlast pages)) = length pages"
    by (cases pages) auto
  show ?thesis
    using r n by auto
qed

text \<open>
  Two instances: the two linked sample pages are both requested, once each, with the
  markers "none" and "m1"; the single empty page is requested once.
\<close>

theorem findDistributionsForBucket_pagination_witness:
  "linkedPages exampleService 0 None [examplePage1, examplePage2] \<and>
   findDistributionsForBucket (Suc (Suc 0)) exampleService ''mybucket'' =
     (Returned [''E1'', ''E2''], [None, Some ''m1'']) \<and>
   linkedPages (\<lambda>k marker. Inr emptyPage) 0 None [emptyPage] \<and>
   findDistributionsForBucket (Suc 0) (\<lambda>k marker. Inr emptyPage) ''mybucket'' =
     (Returned [], [None])"
proof -
  have l2: "linkedPages exampleService 0 None [examplePage1, examplePage2]"
    by (simp add: example_defs truthy_def)
  have l1: "linkedPages (\<lambda>k marker. Inr emptyPage) 0 None [emptyPage]"
    by (simp add: example_defs truthy_def)
  have m: "pageMatches ''mybucket'' examplePage1 = [''E1'']"
    "pageMatches ''mybucket'' examplePage2 = [''E2'']"
    "pageMatches ''mybucket'' emptyPage = []"
    by (simp_all add: example_defs pageMatches_def distributionMatch_def originMatches_def
          startsWith_def originsOf_def itemsOf_def)
  from findDistributionsForBucket_pagination [OF l2, of "Suc (Suc 0)" "''mybucket''"]
  have a: "findDistributionsForBucket (Suc (Suc 0)) exampleService ''mybucket'' =
     (Returned [''E1'', ''E2''], [None, Some ''m1''])"
    by (simp add: m) (simp add: example_defs)
  from findDistributionsForBucket_pagination [OF l1, of "Suc 0" "''mybucket''"]
  have b: "findDistributionsForBucket (Suc 0) (\<lambda>k marker. Inr emptyPage) ''mybucket'' =
     (Returned [], [None])"
    by (simp add: m)
  from l2 a l1 b show ?thesis by simp
qed

section \<open>Sync and invalidation: properties\<close>

lemma invalidations_append: "invalidations (xs @ ys) = invalidations xs @ invalidations ys"
  by (induction xs rule: invalidations.induct) auto

lemma invalidations_ListDistributions: "invalidations (map ListDistributions sent) = []"
  by (induction sent) auto

lemma invalidations_empty_nth:
  "invalidations xs = [] \<Longrightarrow> i < length xs \<Longrightarrow> xs ! i \<noteq> CreateInvalidation request"
proof (induction xs arbitrary: i)
  case Nil
  then show ?case by simp
next
  case (Cons x xs)
  then show ?case by (cases x; cases i) auto
qed

lemma deployWebsite_sync_fails:
  "sync env (syncSource options) (syncTarget options) = Some e \<Longrightarrow>
   \<exists>config line.
     deployWebsite fuel env options =
       (Threw (S3SyncFailed (message e)),
        [ConsoleLog (''Using region: '' @ region config),
         NewS3Client config,
         NewCloudFrontClient config,
         ConsoleLog line,
         Sync (syncSource options) (syncTarget options) True])"
  by (simp add: deployWebsite_def syncSource_def syncTarget_def Let_def)

lemma deployWebsite_sync_succeeds:
  "sync env (syncSource options) (syncTarget options) = None \<Longrightarrow>
   \<exists>config line.
     snd (deployWebsite fuel env options) =
      [ConsoleLog (''Using region: '' @ region config),
       NewS3Client config,
       NewCloudFrontClient config,
       ConsoleLog line,
       Sync (syncSource options) (syncTarget options) True,
       ConsoleLog ''S3 sync completed successfully'']
      @ snd (invalidateDistributions fuel env (bucketName options))"
  by (simp add: deployWebsite_def syncSource_def syncTarget_def Let_def split: prod.splits)

text \<open>
  C6. In every run of \<open>deployWebsite\<close>, whatever the services answer and however many
  rounds of listing the run has got through: when the mirror operation fails, the run
  issues no invalidation request; and an invalidation request at any position of the
  run stands after the call of the mirror operation, which has succeeded.
\<close>

theorem deployWebsite_sync_before_invalidation:
  "(sync env (syncSource options) (syncTarget options) \<noteq> None \<longrightarrow>
      invalidations (snd (deployWebsite fuel env options)) = []) \<and>
   (\<forall>i request. i < length (snd (deployWebsite fuel env options)) \<and>
       snd (deployWebsite fuel env options) ! i = CreateInvalidation request \<longrightarrow>
       sync env (syncSource options) (syncTarget options) = None \<and>
       (\<exists>j < i. snd (deployWebsite fuel env options) ! j =
                  Sync (syncSource options) (syncTarget options) True))"
proof (cases "sync env (syncSource options) (syncTarget options)")
  case (Some e)
  from deployWebsite_sync_fails [OF Some, of fuel]
  have inv: "invalidations (snd (deployWebsite fuel env options)) = []"
    by auto
  show ?thesis
    using inv invalidations_empty_nth [OF inv] Some by blast
next
  case None
  from deployWebsite_sync_succeeds [OF None, of fuel] obtain config line where
    tr: "snd (deployWebsite fuel env options) =
      [ConsoleLog (''Using region: '' @ region config), NewS3Client config,
       NewCloudFrontClient config, ConsoleLog line,
       Sync (syncSource options) (syncTarget options) True,
       ConsoleLog ''S3 sync completed successfully'']
      @ snd (invalidateDistributions fuel env (bucketName options))" by blast
  have pre: "\<And>i request. i < 6 \<Longrightarrow>
      snd (deployWebsite fuel env options) ! i \<noteq> CreateInvalidation request"
  proof -
    fix i :: nat and request
    assume "i < 6"
    then have "i = 0 \<or> i = 1 \<or> i = 2 \<or> i = 3 \<or> i = 4 \<or> i = 5" by arith
    then show "snd (deployWebsite fuel env options) ! i \<noteq> CreateInvalidation request"
      unfolding tr by (elim disjE) simp_all
  qed
  have four: "snd (deployWebsite fuel env options) ! 4 =
      Sync (syncSource options) (syncTarget options) True"
    unfolding tr by simp
  show ?thesis
  proof (intro conjI allI impI)
    assume "sync env (syncSource options) (syncTarget options) \<noteq> None"
    with None show "invalidations (snd (deployWebsite fuel env options)) = []" by simp
  next
    fix i request
    assume a: "i < length (snd (deployWebsite fuel env options)) \<and>
       snd (deployWebsite fuel env options) ! i = CreateInvalidation request"
    show "sync env (syncSource options) (syncTarget options) = None" by (rule None)
    from a pre [of i request] have "4 < i" by force
    with four show "\<exists>j < i. snd (deployWebsite fuel env options) ! j =
                  Sync (syncSource options) (syncTarget options) True" by blast
  qed
qed

lemma exampleEnv_invalidations:
  "invalidations (snd (deployWebsite (Suc (Suc 0)) exampleEnv exampleOptions)) =
     [\<lparr>DistributionId = ''E1'', CallerReference = ''1700000000000-E1'',
        PathsQuantity = 1, PathsItems = [''/*'']\<rparr>,
      \<lparr>DistributionId = ''E2'', CallerReference = ''1700000000000-E2'',
        PathsQuantity = 1, PathsItems = [''/*'']\<rparr>]"
  by (simp add: example_defs run_defs)

lemma exampleEnv_first_invalidation:
  "9 < length (snd (deployWebsite (Suc (Suc 0)) exampleEnv exampleOptions)) \<and>
   snd (deployWebsite (Suc (Suc 0)) exampleEnv exampleOptions) ! 9 =
     CreateInvalidation
       \<lparr>DistributionId = ''E1'', CallerReference = ''1700000000000-E1'',
        PathsQuantity = 1, PathsItems = [''/*'']\<rparr>"
  by (simp add: example_defs run_defs)

text \<open>
  Two instances: with a failing mirror operation the sample run issues no invalidation
  request; with a successful one its first invalidation request, the tenth event of
  the run, stands after the call of the mirror operation.
\<close>

theorem deployWebsite_sync_before_invalidation_witness:
  "sync failingSyncEnv (syncSource exampleOptions) (syncTarget exampleOptions) \<noteq> None \<and>
   invalidations (snd (deployWebsite (Suc (Suc 0)) failingSyncEnv exampleOptions)) = [] \<and>
   snd (deployWebsite (Suc (Suc 0)) exampleEnv exampleOptions) ! 9 =
     CreateInvalidation
       \<lparr>DistributionId = ''E1'', CallerReference = ''1700000000000-E1'',
        PathsQuantity = 1, PathsItems = [''/*'']\<rparr> \<and>
   sync exampleEnv (syncSource exampleOptions) (syncTarget exampleOptions) = None \<and>
   (\<exists>j < 9. snd (deployWebsite (Suc (Suc 0)) exampleEnv exampleOptions) ! j =
              Sync (syncSource exampleOptions) (syncTarget exampleOptions) True)"
proof -
  have f: "sync failingSyncEnv (syncSource exampleOptions) (syncTarget exampleOptions) \<noteq> None"
    by (simp add: example_defs)
  from deployWebsite_sync_before_invalidation
    [of failingSyncEnv exampleOptions "Suc (Suc 0)"] f
  have a: "invalidations (snd (deployWebsite (Suc (Suc 0)) failingSyncEnv exampleOptions)) = []"
    by blast
  from deployWebsite_sync_before_invalidation
    [of exampleEnv exampleOptions "Suc (Suc 0)"] exampleEnv_first_invalidation
  have b: "sync exampleEnv (syncSource exampleOptions) (syncTarget exampleOptions) = None \<and>
     (\<exists>j < 9. snd (deployWebsite (Suc (Suc 0)) exampleEnv exampleOptions) ! j =
              Sync (syncSource exampleOptions) (syncTarget exampleOptions) True)"
    by blast
  from f a b exampleEnv_first_invalidation show ?thesis by blast
qed

text \<open>
  C8. When the mirror operation fails, \<open>deployWebsite\<close> throws one error, whose message
  is "S3 sync failed: " followed by the message of the failure; the mirror operation has
  been called once, and no other service call is made: no second attempt, no listing, no
  invalidation.
\<close>

theorem deployWebsite_sync_failure_wrapped:
  "sync env (syncSource options) (syncTarget options) = Some e \<Longrightarrow>
   fst (deployWebsite fuel env options) = Threw (S3SyncFailed (message e)) \<and>
   message (S3SyncFailed (message e)) = ''S3 sync failed: '' @ message e \<and>
   filter isServiceCall (snd (deployWebsite fuel env options)) =
     [Sync (syncSource options) (syncTarget options) True]"
proof -
  assume "sync env (syncSource options) (syncTarget options) = Some e"
  from deployWebsite_sync_fails [OF this, of fuel] show ?thesis by auto
qed

theorem deployWebsite_sync_failure_wrapped_witness:
  "sync failingSyncEnv (syncSource exampleOptions) (syncTarget exampleOptions) =
     Some (ServiceError ''Access Denied'') \<and>
   fst (deployWebsite (Suc (Suc 0)) failingSyncEnv exampleOptions) =
     Threw (S3SyncFailed ''Access Denied'') \<and>
   message (S3SyncFailed ''Access Denied'') = ''S3 sync failed: Access Denied'' \<and>
   filter isServiceCall (snd (deployWebsite (Suc (Suc 0)) failingSyncEnv exampleOptions)) =
     [Sync ''website'' ''s3://mybucket'' True]"
proof -
  have f: "sync failingSyncEnv (syncSource exampleOptions) (syncTarget exampleOptions) =
     Some (ServiceError ''Access Denied'')"
    by (simp add: example_defs)
  from deployWebsite_sync_failure_wrapped [OF f, of "Suc (Suc 0)"] f
  show ?thesis
    by (simp add: syncSource_def syncTarget_def exampleOptions_def)
qed

lemma digitChar_not_hyphen: "digitChar n \<noteq> CHR ''-''"
proof -
  define m where "m = n mod 10"
  have "m < 10" by (simp add: m_def)
  then have "m = 0 \<or> m = 1 \<or> m = 2 \<or> m = 3 \<or> m = 4 \<or> m = 5 \<or> m = 6 \<or> m = 7 \<or> m = 8 \<or> m = 9"
    by arith
  then have "''0123456789'' ! m \<noteq> CHR ''-''"
    by (elim disjE) simp_all
  then show ?thesis by (simp add: digitChar_def m_def)
qed

lemma decimal_no_hyphen: "CHR ''-'' \<notin> set (decimal n)"
proof (induction n rule: decimal.induct)
  case (1 n)
  show ?case
  proof (cases "n < 10")
    case True
    then show ?thesis using digitChar_not_hyphen [of n] by (simp add: decimal.simps [of n])
  next
    case False
    then show ?thesis
      using 1 digitChar_not_hyphen [of n] by (simp add: decimal.simps [of n])
  qed
qed

text \<open>The reference ends with the identifier, after its first hyphen.\<close>

lemma callerReference_after_hyphen:
  "dropWhile (\<lambda>c. c \<noteq> CHR ''-'') (callerReference t i) = ''-'' @ i"
proof -
  have "\<And>c. c \<in> set (decimal t) \<Longrightarrow> c \<noteq> CHR ''-''"
    using decimal_no_hyphen [of t] by auto
  then have "dropWhile (\<lambda>c. c \<noteq> CHR ''-'') (decimal t @ ''-'' @ i)
      = dropWhile (\<lambda>c. c \<noteq> CHR ''-'') (''-'' @ i)"
    by (rule dropWhile_append2)
  then show ?thesis by (simp add: callerReference_def)
qed

lemma callerReference_determines_id:
  assumes "callerReference t1 id1 = callerReference t2 id2"
  shows "id1 = id2"
proof -
  from assms have "dropWhile (\<lambda>c. c \<noteq> CHR ''-'') (callerReference t1 id1)
      = dropWhile (\<lambda>c. c \<noteq> CHR ''-'') (callerReference t2 id2)" by simp
  then show ?thesis unfolding callerReference_after_hyphen by simp
qed

lemma digitChar_inj:
  assumes "a < 10" and "b < 10" and "digitChar a = digitChar b"
  shows "a = b"
proof -
  have d: "distinct ''0123456789''" by simp
  have "''0123456789'' ! a = ''0123456789'' ! b"
    using assms by (simp add: digitChar_def)
  moreover have "a < length ''0123456789''" "b < length ''0123456789''"
    using assms by simp_all
  ultimately show ?thesis using d nth_eq_iff_index_eq by blast
qed

lemma digitChar_mod: "digitChar a = digitChar b \<Longrightarrow> a mod 10 = b mod 10"
  using digitChar_inj [of "a mod 10" "b mod 10"] by (simp add: digitChar_def)

lemma decimal_length: "length (decimal n) = 1 \<longleftrightarrow> n < 10"
proof (cases "n < 10")
  case True
  then show ?thesis by (simp add: decimal.simps [of n])
next
  case False
  have "decimal (n div 10) \<noteq> []"
    by (simp add: decimal.simps [of "n div 10"])
  with False show ?thesis by (simp add: decimal.simps [of n])
qed

lemma decimal_inj: "decimal m = decimal n \<Longrightarrow> m = n"
proof (induction m arbitrary: n rule: decimal.induct)
  case (1 m)
  show ?case
  proof (cases "m < 10")
    case True
    with "1.prems" have n: "n < 10"
      using decimal_length [of m] decimal_length [of n] by simp
    with True "1.prems" have "digitChar m = digitChar n"
      by (simp add: decimal.simps [of m] decimal.simps [of n])
    then show ?thesis using True n digitChar_inj by blast
  next
    case False
    with "1.prems" have n: "\<not> n < 10"
      using decimal_length [of m] decimal_length [of n] by simp
    from False n "1.prems" have
      "decimal (m div 10) @ [digitChar m] = decimal (n div 10) @ [digitChar n]"
      by (simp add: decimal.simps [of m] decimal.simps [of n])
    then have e: "decimal (m div 10) = decimal (n div 10)" and d: "digitChar m = digitChar n"
      by simp_all
    from "1.IH" [OF False e] have "m div 10 = n div 10" .
    moreover from d have "m mod 10 = n mod 10" by (rule digitChar_mod)
    ultimately show ?thesis by (metis div_mult_mod_eq)
  qed
qed

lemma callerReference_before_hyphen:
  "takeWhile (\<lambda>c. c \<noteq> CHR ''-'') (callerReference t i) = decimal t"
proof -
  have "\<And>c. c \<in> set (decimal t) \<Longrightarrow> c \<noteq> CHR ''-''"
    using decimal_no_hyphen [of t] by auto
  then have "takeWhile (\<lambda>c. c \<noteq> CHR ''-'') (decimal t @ ''-'' @ i)
      = decimal t @ takeWhile (\<lambda>c. c \<noteq> CHR ''-'') (''-'' @ i)"
    by (rule takeWhile_append2)
  then show ?thesis by (simp add: callerReference_def)
qed

lemma callerReference_eq_iff:
  "callerReference t1 id1 = callerReference t2 id2 \<longleftrightarrow> t1 = t2 \<and> id1 = id2"
proof
  assume e: "callerReference t1 id1 = callerReference t2 id2"
  then have "takeWhile (\<lambda>c. c \<noteq> CHR ''-'') (callerReference t1 id1)
      = takeWhile (\<lambda>c. c \<noteq> CHR ''-'') (callerReference t2 id2)" by simp
  then have "decimal t1 = decimal t2" unfolding callerReference_before_hyphen .
  then have "t1 = t2" by (rule decimal_inj)
  moreover from e have "id1 = id2" by (rule callerReference_determines_id)
  ultimately show "t1 = t2 \<and> id1 = id2" by simp
next
  assume "t1 = t2 \<and> id1 = id2"
  then show "callerReference t1 id1 = callerReference t2 id2" by simp
qed

lemma invalidateAll_requests:
  "invalidateAll env k ids = (r, events) \<Longrightarrow>
   length (invalidations events) \<le> length ids \<and>
   (\<forall>m < length (invalidations events).
      invalidations events ! m = invalidationRequest (dateNow env (k + m)) (ids ! m))"
proof (induction ids arbitrary: k r events)
  case Nil
  then show ?case by auto
next
  case (Cons distributionId rest)
  show ?case
  proof (cases "createInvalidation env k (invalidationRequest (dateNow env k) distributionId)")
    case (Some e)
    with Cons.prems have "invalidations events = [invalidationRequest (dateNow env k) distributionId]"
      by (auto simp: invalidationRequest_def Let_def)
    then show ?thesis by simp
  next
    case None
    obtain r' events' where rest: "invalidateAll env (Suc k) rest = (r', events')"
      by (cases "invalidateAll env (Suc k) rest")
    with None Cons.prems have ev: "invalidations events =
        invalidationRequest (dateNow env k) distributionId # invalidations events'"
      by (auto simp: invalidationRequest_def Let_def)
    from Cons.IH [OF rest] have ih:
      "length (invalidations events') \<le> length rest"
      "\<And>m. m < length (invalidations events') \<Longrightarrow>
         invalidations events' ! m = invalidationRequest (dateNow env (Suc k + m)) (rest ! m)"
      by auto
    show ?thesis
    proof (intro conjI allI impI)
      show "length (invalidations events) \<le> length (distributionId # rest)"
        using ev ih(1) by simp
    next
      fix m
      assume m: "m < length (invalidations events)"
      show "invalidations events ! m =
          invalidationRequest (dateNow env (k + m)) ((distributionId # rest) ! m)"
      proof (cases m)
        case 0
        then show ?thesis using ev by simp
      next
        case (Suc m')
        with m ev have "m' < length (invalidations events')" by simp
        from ih(2) [OF this] show ?thesis using ev Suc by simp
      qed
    qed
  qed
qed

lemma invalidateDistributions_requests:
  "\<exists>ids.
     (ids = [] \<or> fst (findDistributionsForBucket fuel (listDistributions env) bucket) = Returned ids) \<and>
     length (invalidations (snd (invalidateDistributions fuel env bucket))) \<le> length ids \<and>
     (\<forall>m < length (invalidations (snd (invalidateDistributions fuel env bucket))).
        invalidations (snd (invalidateDistributions fuel env bucket)) ! m =
          invalidationRequest (dateNow env m) (ids ! m))"
proof -
  obtain found sent where f:
    "findDistributionsForBucket fuel (listDistributions env) bucket = (found, sent)"
    by (cases "findDistributionsForBucket fuel (listDistributions env) bucket")
  show ?thesis
  proof (cases found)
    case (Returned ids)
    show ?thesis
    proof (cases "ids = []")
      case True
      with f Returned have
        "invalidations (snd (invalidateDistributions fuel env bucket)) = []"
        by (simp add: invalidateDistributions_def invalidations_append
              invalidations_ListDistributions)
      then show ?thesis by auto
    next
      case False
      obtain r events where ia: "invalidateAll env 0 ids = (r, events)"
        by (cases "invalidateAll env 0 ids")
      with f Returned False have
        "invalidations (snd (invalidateDistributions fuel env bucket)) = invalidations events"
        by (simp add: invalidateDistributions_def invalidations_append
              invalidations_ListDistributions)
      with invalidateAll_requests [OF ia] f Returned show ?thesis by auto
    qed
  next
    case (Threw e)
    with f have "invalidations (snd (invalidateDistributions fuel env bucket)) = []"
      by (simp add: invalidateDistributions_def invalidations_ListDistributions)
    then show ?thesis by auto
  next
    case Pending
    with f have "invalidations (snd (invalidateDistributions fuel env bucket)) = []"
      by (simp add: invalidateDistributions_def invalidations_ListDistributions)
    then show ?thesis by auto
  qed
qed

lemma deployWebsite_requests:
  "\<exists>ids.
     (ids = [] \<or>
      fst (findDistributionsForBucket fuel (listDistributions env) (bucketName options)) =
        Returned ids) \<and>
     length (invalidations (snd (deployWebsite fuel env options))) \<le> length ids \<and>
     (\<forall>m < length (invalidations (snd (deployWebsite fuel env options))).
        invalidations (snd (deployWebsite fuel env options)) ! m =
          invalidationRequest (dateNow env m) (ids ! m))"
proof (cases "sync env (syncSource options) (syncTarget options)")
  case (Some e)
  from deployWebsite_sync_fails [OF Some, of fuel]
  have "invalidations (snd (deployWebsite fuel env options)) = []" by auto
  then show ?thesis by auto
next
  case None
  from deployWebsite_sync_succeeds [OF None, of fuel]
  have "invalidations (snd (deployWebsite fuel env options)) =
      invalidations (snd (invalidateDistributions fuel env (bucketName options)))"
    by (auto simp: invalidations_append)
  then show ?thesis
    using invalidateDistributions_requests [of fuel env "bucketName options"] by simp
qed

text \<open>
  deployWebsite_callerReferences_distinct, as stated, fails: when the listing names the distribution "E1" twice and the clock
  reads 7 at both requests, the run issues two invalidation requests, and both carry the
  reference "7-E1".
\<close>

theorem deployWebsite_duplicate_listing_same_reference:
  "length (invalidations (snd (deployWebsite (Suc 0) duplicateListingEnv exampleOptions))) = 2 \<and>
   CallerReference
     (invalidations (snd (deployWebsite (Suc 0) duplicateListingEnv exampleOptions)) ! 0) =
   CallerReference
     (invalidations (snd (deployWebsite (Suc 0) duplicateListingEnv exampleOptions)) ! 1) \<and>
   map CallerReference
     (invalidations (snd (deployWebsite (Suc 0) duplicateListingEnv exampleOptions))) =
     [''7-E1'', ''7-E1'']"
  by (simp add: example_defs run_defs)

text \<open>
  deployWebsite_callerReferences_distinct, amended. Within one run of \<open>deployWebsite\<close>, two invalidation requests carry
  the same caller reference exactly when they are for the same distribution identifier
  and the clock read the same millisecond at both. So the requests issued for
  distributions of pairwise distinct identifiers carry pairwise distinct references,
  whatever the clock reads; this is the case whenever discovery has returned pairwise
  distinct identifiers.
\<close>

theorem deployWebsite_callerReferences_distinct:
  "(\<forall>i j. i < length (invalidations (snd (deployWebsite fuel env options))) \<and>
          j < length (invalidations (snd (deployWebsite fuel env options))) \<longrightarrow>
      (CallerReference (invalidations (snd (deployWebsite fuel env options)) ! i) =
       CallerReference (invalidations (snd (deployWebsite fuel env options)) ! j)
       \<longleftrightarrow>
       DistributionId (invalidations (snd (deployWebsite fuel env options)) ! i) =
       DistributionId (invalidations (snd (deployWebsite fuel env options)) ! j) \<and>
       dateNow env i = dateNow env j)) \<and>
   (distinct (map DistributionId (invalidations (snd (deployWebsite fuel env options)))) \<longrightarrow>
      distinct (map CallerReference (invalidations (snd (deployWebsite fuel env options))))) \<and>
   (fst (findDistributionsForBucket fuel (listDistributions env) (bucketName options)) =
      Returned ids \<and> distinct ids \<longrightarrow>
      distinct (map CallerReference (invalidations (snd (deployWebsite fuel env options)))))"
proof -
  let ?reqs = "invalidations (snd (deployWebsite fuel env options))"
  from deployWebsite_requests [of fuel env options] obtain found where
    found: "found = [] \<or>
      fst (findDistributionsForBucket fuel (listDistributions env) (bucketName options)) =
        Returned found"
    and len: "length ?reqs \<le> length found"
    and nth: "\<And>m. m < length ?reqs \<Longrightarrow>
      ?reqs ! m = invalidationRequest (dateNow env m) (found ! m)"
    by blast
  have pair: "\<forall>i j. i < length ?reqs \<and> j < length ?reqs \<longrightarrow>
      (CallerReference (?reqs ! i) = CallerReference (?reqs ! j) \<longleftrightarrow>
       DistributionId (?reqs ! i) = DistributionId (?reqs ! j) \<and> dateNow env i = dateNow env j)"
  proof (intro allI impI)
    fix i j
    assume "i < length ?reqs \<and> j < length ?reqs"
    then have "?reqs ! i = invalidationRequest (dateNow env i) (found ! i)"
      and "?reqs ! j = invalidationRequest (dateNow env j) (found ! j)"
      using nth by simp_all
    then show "CallerReference (?reqs ! i) = CallerReference (?reqs ! j) \<longleftrightarrow>
       DistributionId (?reqs ! i) = DistributionId (?reqs ! j) \<and> dateNow env i = dateNow env j"
      by (auto simp: invalidationRequest_def callerReference_eq_iff)
  qed
  have dist: "distinct (map DistributionId ?reqs) \<Longrightarrow> distinct (map CallerReference ?reqs)"
  proof -
    assume d: "distinct (map DistributionId ?reqs)"
    show "distinct (map CallerReference ?reqs)"
      unfolding distinct_conv_nth
    proof (intro allI impI)
      fix i j
      assume i: "i < length (map CallerReference ?reqs)"
        and j: "j < length (map CallerReference ?reqs)" and ne: "i \<noteq> j"
      from d i j ne have "map DistributionId ?reqs ! i \<noteq> map DistributionId ?reqs ! j"
        by (simp add: distinct_conv_nth)
      with i j have "DistributionId (?reqs ! i) \<noteq> DistributionId (?reqs ! j)" by simp
      with pair i j have "CallerReference (?reqs ! i) \<noteq> CallerReference (?reqs ! j)" by simp
      with i j show "map CallerReference ?reqs ! i \<noteq> map CallerReference ?reqs ! j" by simp
    qed
  qed
  have ret: "fst (findDistributionsForBucket fuel (listDistributions env) (bucketName options)) =
      Returned ids \<and> distinct ids \<Longrightarrow> distinct (map CallerReference ?reqs)"
  proof -
    assume a: "fst (findDistributionsForBucket fuel (listDistributions env) (bucketName options)) =
      Returned ids \<and> distinct ids"
    show "distinct (map CallerReference ?reqs)"
    proof (cases "?reqs = []")
      case True
      then show ?thesis by simp
    next
      case False
      with len have "found \<noteq> []" by auto
      with found a have f: "found = ids" by simp
      have "map DistributionId ?reqs = take (length ?reqs) ids"
      proof (rule nth_equalityI)
        show "length (map DistributionId ?reqs) = length (take (length ?reqs) ids)"
          using len f by simp
      next
        fix m
        assume "m < length (map DistributionId ?reqs)"
        then have m: "m < length ?reqs" by simp
        from nth [OF m] have "DistributionId (?reqs ! m) = ids ! m"
          by (simp add: invalidationRequest_def f)
        with m show "map DistributionId ?reqs ! m = take (length ?reqs) ids ! m" by simp
      qed
      with a have "distinct (map DistributionId ?reqs)" by simp
      then show ?thesis by (rule dist)
    qed
  qed
  from pair dist ret show ?thesis by blast
qed

lemma exampleEnv_found:
  "fst (findDistributionsForBucket (Suc (Suc 0)) (listDistributions exampleEnv)
          (bucketName exampleOptions)) = Returned [''E1'', ''E2'']"
  by (simp add: example_defs run_defs)

text \<open>
  An instance: in the sample run the clock reads the same millisecond at both requests;
  the references "1700000000000-E1" and "1700000000000-E2" differ all the same.
\<close>

theorem deployWebsite_callerReferences_distinct_witness:
  "dateNow exampleEnv 0 = dateNow exampleEnv 1 \<and>
   CallerReference
     (invalidations (snd (deployWebsite (Suc (Suc 0)) exampleEnv exampleOptions)) ! 0) \<noteq>
   CallerReference
     (invalidations (snd (deployWebsite (Suc (Suc 0)) exampleEnv exampleOptions)) ! 1) \<and>
   distinct (map DistributionId
     (invalidations (snd (deployWebsite (Suc (Suc 0)) exampleEnv exampleOptions)))) \<and>
   fst (findDistributionsForBucket (Suc (Suc 0)) (listDistributions exampleEnv)
          (bucketName exampleOptions)) = Returned [''E1'', ''E2''] \<and>
   distinct (map CallerReference
     (invalidations (snd (deployWebsite (Suc (Suc 0)) exampleEnv exampleOptions)))) \<and>
   map CallerReference
     (invalidations (snd (deployWebsite (Suc (Suc 0)) exampleEnv exampleOptions))) =
     [''1700000000000-E1'', ''1700000000000-E2'']"
proof -
  note t = deployWebsite_callerReferences_distinct [of "Suc (Suc 0)" exampleEnv exampleOptions "[''E1'', ''E2'']"]
  have d: "distinct (map DistributionId
     (invalidations (snd (deployWebsite (Suc (Suc 0)) exampleEnv exampleOptions))))"
    by (simp add: exampleEnv_invalidations)
  have l: "0 < length (invalidations (snd (deployWebsite (Suc (Suc 0)) exampleEnv exampleOptions)))"
    "1 < length (invalidations (snd (deployWebsite (Suc (Suc 0)) exampleEnv exampleOptions)))"
    by (simp_all add: exampleEnv_invalidations)
  have i: "DistributionId
     (invalidations (snd (deployWebsite (Suc (Suc 0)) exampleEnv exampleOptions)) ! 0) \<noteq>
     DistributionId
     (invalidations (snd (deployWebsite (Suc (Suc 0)) exampleEnv exampleOptions)) ! 1)"
    by (simp add: exampleEnv_invalidations)
  from t l i have a: "CallerReference
     (invalidations (snd (deployWebsite (Suc (Suc 0)) exampleEnv exampleOptions)) ! 0) \<noteq>
   CallerReference
     (invalidations (snd (deployWebsite (Suc (Suc 0)) exampleEnv exampleOptions)) ! 1)"
    by blast
  from t d have b: "distinct (map CallerReference
     (invalidations (snd (deployWebsite (Suc (Suc 0)) exampleEnv exampleOptions))))"
    by blast
  from t exampleEnv_found have c: "distinct (map CallerReference
     (invalidations (snd (deployWebsite (Suc (Suc 0)) exampleEnv exampleOptions))))"
    by simp
  have e: "dateNow exampleEnv 0 = dateNow exampleEnv 1" by (simp add: exampleEnv_def)
  have m: "map CallerReference
     (invalidations (snd (deployWebsite (Suc (Suc 0)) exampleEnv exampleOptions))) =
     [''1700000000000-E1'', ''1700000000000-E2'']"
    by (simp add: exampleEnv_invalidations)
  from e a d exampleEnv_found b m show ?thesis by blast
qed

text \<open>The first events of every run: the region line and the two clients.\<close>

lemma deployWebsite_clients:
  "\<exists>rest.
     snd (deployWebsite fuel env options) =
       [ConsoleLog (''Using region: '' @
          getRegionFromProfile (sharedConfigFiles env) (processEnv env)
            (case profile options of Some p \<Rightarrow> p | None \<Rightarrow> [])),
        NewS3Client
          \<lparr>region = getRegionFromProfile (sharedConfigFiles env) (processEnv env)
                      (case profile options of Some p \<Rightarrow> p | None \<Rightarrow> []),
           credentials =
             (if (case profile options of Some p \<Rightarrow> p | None \<Rightarrow> []) \<noteq> []
              then Some (FromIni (case profile options of Some p \<Rightarrow> p | None \<Rightarrow> []))
              else None)\<rparr>,
        NewCloudFrontClient
          \<lparr>region = getRegionFromProfile (sharedConfigFiles env) (processEnv env)
                      (case profile options of Some p \<Rightarrow> p | None \<Rightarrow> []),
           credentials =
             (if (case profile options of Some p \<Rightarrow> p | None \<Rightarrow> []) \<noteq> []
              then Some (FromIni (case profile options of Some p \<Rightarrow> p | None \<Rightarrow> []))
              else None)\<rparr>]
       @ rest"
proof (cases "sync env (syncSource options) (syncTarget options)")
  case None
  then show ?thesis
    by (cases "invalidateDistributions fuel env (bucketName options)")
       (simp add: deployWebsite_def syncSource_def syncTarget_def Let_def)
next
  case (Some e)
  then show ?thesis
    by (simp add: deployWebsite_def syncSource_def syncTarget_def Let_def)
qed

text \<open>
  C10. When \<open>deployWebsite\<close> is called without a profile (or with the empty
  name), the region is the first non-empty value among the region of the section
  "default" of the shared files (the section of the config file, or of the credentials
  file when the config file has none), AWS_REGION, AWS_DEFAULT_REGION and "us-east-1":
  a non-empty region of the section "default" wins over both environment variables, and
  "us-east-1" is the region when nothing is set. Both clients are constructed with that
  region and without credentials of their own, which leaves them the default
  credential chain.
\<close>

theorem deployWebsite_without_profile:
  "profile options = None \<or> profile options = Some [] \<Longrightarrow>
   r = firstNonEmpty
         [regionOf (selectProfileConfig (sharedConfigFiles env) ''default''),
          AWS_REGION (processEnv env), AWS_DEFAULT_REGION (processEnv env)]
         ''us-east-1'' \<Longrightarrow>
   take 3 (snd (deployWebsite fuel env options)) =
     [ConsoleLog (''Using region: '' @ r),
      NewS3Client \<lparr>region = r, credentials = None\<rparr>,
      NewCloudFrontClient \<lparr>region = r, credentials = None\<rparr>] \<and>
   (configFile (sharedConfigFiles env) = Some cf \<and> cf ''default'' = Some sect \<and>
    sect ''region'' = Some reg \<and> reg \<noteq> [] \<longrightarrow> r = reg) \<and>
   ((configFile (sharedConfigFiles env) = None \<or>
     (\<exists>c. configFile (sharedConfigFiles env) = Some c \<and> c ''default'' = None)) \<and>
    credentialsFile (sharedConfigFiles env) = Some cf' \<and> cf' ''default'' = Some sect' \<and>
    sect' ''region'' = Some reg' \<and> reg' \<noteq> [] \<longrightarrow> r = reg') \<and>
   (regionOf (selectProfileConfig (sharedConfigFiles env) ''default'') = None \<and>
    AWS_REGION (processEnv env) = None \<and> AWS_DEFAULT_REGION (processEnv env) = None \<longrightarrow>
    r = ''us-east-1'')"
proof -
  assume "profile options = None \<or> profile options = Some []"
  then have p: "(case profile options of Some p \<Rightarrow> p | None \<Rightarrow> []) = []" by auto
  assume r: "r = firstNonEmpty
         [regionOf (selectProfileConfig (sharedConfigFiles env) ''default''),
          AWS_REGION (processEnv env), AWS_DEFAULT_REGION (processEnv env)]
         ''us-east-1''"
  then have g: "getRegionFromProfile (sharedConfigFiles env) (processEnv env) [] = r"
    by (simp add: getRegionFromProfile_firstNonEmpty)
  from deployWebsite_clients [of fuel env options] obtain rest where
    "snd (deployWebsite fuel env options) =
       [ConsoleLog (''Using region: '' @ r),
        NewS3Client \<lparr>region = r, credentials = None\<rparr>,
        NewCloudFrontClient \<lparr>region = r, credentials = None\<rparr>] @ rest"
    unfolding p g by auto
  then have t: "take 3 (snd (deployWebsite fuel env options)) =
     [ConsoleLog (''Using region: '' @ r),
      NewS3Client \<lparr>region = r, credentials = None\<rparr>,
      NewCloudFrontClient \<lparr>region = r, credentials = None\<rparr>]" by simp
  have c1: "configFile (sharedConfigFiles env) = Some cf \<and> cf ''default'' = Some sect \<and>
    sect ''region'' = Some reg \<and> reg \<noteq> [] \<longrightarrow> r = reg"
    unfolding r by (simp add: selectProfileConfig_def lookupProfile_def regionOf_def)
  have c2: "(configFile (sharedConfigFiles env) = None \<or>
     (\<exists>c. configFile (sharedConfigFiles env) = Some c \<and> c ''default'' = None)) \<and>
    credentialsFile (sharedConfigFiles env) = Some cf' \<and> cf' ''default'' = Some sect' \<and>
    sect' ''region'' = Some reg' \<and> reg' \<noteq> [] \<longrightarrow> r = reg'"
    unfolding r by (auto simp add: selectProfileConfig_def lookupProfile_def regionOf_def)
  have c3: "regionOf (selectProfileConfig (sharedConfigFiles env) ''default'') = None \<and>
    AWS_REGION (processEnv env) = None \<and> AWS_DEFAULT_REGION (processEnv env) = None \<longrightarrow>
    r = ''us-east-1''"
    unfolding r by simp
  from t c1 c2 c3 show ?thesis by blast
qed

text \<open>
  Four instances, all without a profile and with clients without credentials: the
  section "default" of the config file gives "sa-east-1" although both environment
  variables are set; so does the section "default" of the credentials file, with
  "ap-south-1", when the config file has no such section; a section "default" without
  a region leaves the region to AWS_DEFAULT_REGION; and with nothing set the region is
  "us-east-1".
\<close>

theorem deployWebsite_without_profile_witness:
  "profile exampleOptions = None \<and>
   configFile (sharedConfigFiles defaultRegionEnv) =
     Some [''default'' \<mapsto> [''region'' \<mapsto> ''sa-east-1'']] \<and>
   take 3 (snd (deployWebsite (Suc (Suc 0)) defaultRegionEnv exampleOptions)) =
     [ConsoleLog ''Using region: sa-east-1'',
      NewS3Client \<lparr>region = ''sa-east-1'', credentials = None\<rparr>,
      NewCloudFrontClient \<lparr>region = ''sa-east-1'', credentials = None\<rparr>] \<and>
   credentialsFile (sharedConfigFiles credentialsRegionEnv) =
     Some [''default'' \<mapsto> [''region'' \<mapsto> ''ap-south-1'']] \<and>
   take 3 (snd (deployWebsite (Suc (Suc 0)) credentialsRegionEnv exampleOptions)) =
     [ConsoleLog ''Using region: ap-south-1'',
      NewS3Client \<lparr>region = ''ap-south-1'', credentials = None\<rparr>,
      NewCloudFrontClient \<lparr>region = ''ap-south-1'', credentials = None\<rparr>] \<and>
   take 3 (snd (deployWebsite (Suc (Suc 0)) exampleEnv exampleOptions)) =
     [ConsoleLog ''Using region: eu-central-1'',
      NewS3Client \<lparr>region = ''eu-central-1'', credentials = None\<rparr>,
      NewCloudFrontClient \<lparr>region = ''eu-central-1'', credentials = None\<rparr>] \<and>
   take 3 (snd (deployWebsite (Suc (Suc 0))
      (exampleEnv\<lparr>processEnv := \<lparr>AWS_REGION = None, AWS_DEFAULT_REGION = None\<rparr>\<rparr>)
      exampleOptions)) =
     [ConsoleLog ''Using region: us-east-1'',
      NewS3Client \<lparr>region = ''us-east-1'', credentials = None\<rparr>,
      NewCloudFrontClient \<lparr>region = ''us-east-1'', credentials = None\<rparr>]"
proof -
  have p: "profile exampleOptions = None \<or> profile exampleOptions = Some []"
    by (simp add: exampleOptions_def)
  have f1: "configFile (sharedConfigFiles defaultRegionEnv) =
     Some [''default'' \<mapsto> [''region'' \<mapsto> ''sa-east-1'']]"
    by (simp add: example_defs)
  have f2: "credentialsFile (sharedConfigFiles credentialsRegionEnv) =
     Some [''default'' \<mapsto> [''region'' \<mapsto> ''ap-south-1'']]"
    by (simp add: example_defs)
  have g2: "configFile (sharedConfigFiles credentialsRegionEnv) = Some Map.empty"
    by (simp add: example_defs)
  note t1 = deployWebsite_without_profile
    [where cf = "[''default'' \<mapsto> [''region'' \<mapsto> ''sa-east-1'']]"
       and sect = "[''region'' \<mapsto> ''sa-east-1'']" and reg = "''sa-east-1''"
       and cf' = "Map.empty" and sect' = "Map.empty" and reg' = "[]"
       and env = defaultRegionEnv and fuel = "Suc (Suc 0)", OF p refl]
  from t1 f1 have r1: "firstNonEmpty
         [regionOf (selectProfileConfig (sharedConfigFiles defaultRegionEnv) ''default''),
          AWS_REGION (processEnv defaultRegionEnv),
          AWS_DEFAULT_REGION (processEnv defaultRegionEnv)]
         ''us-east-1'' = ''sa-east-1''"
    by simp
  from t1 have a: "take 3 (snd (deployWebsite (Suc (Suc 0)) defaultRegionEnv exampleOptions)) =
     [ConsoleLog ''Using region: sa-east-1'',
      NewS3Client \<lparr>region = ''sa-east-1'', credentials = None\<rparr>,
      NewCloudFrontClient \<lparr>region = ''sa-east-1'', credentials = None\<rparr>]"
    unfolding r1 by simp
  note t2 = deployWebsite_without_profile
    [where cf = "Map.empty" and sect = "Map.empty" and reg = "[]"
       and cf' = "[''default'' \<mapsto> [''region'' \<mapsto> ''ap-south-1'']]"
       and sect' = "[''region'' \<mapsto> ''ap-south-1'']" and reg' = "''ap-south-1''"
       and env = credentialsRegionEnv and fuel = "Suc (Suc 0)", OF p refl]
  from t2 f2 g2 have r2: "firstNonEmpty
         [regionOf (selectProfileConfig (sharedConfigFiles credentialsRegionEnv) ''default''),
          AWS_REGION (processEnv credentialsRegionEnv),
          AWS_DEFAULT_REGION (processEnv credentialsRegionEnv)]
         ''us-east-1'' = ''ap-south-1''"
    by simp
  from t2 have b: "take 3 (snd (deployWebsite (Suc (Suc 0)) credentialsRegionEnv exampleOptions)) =
     [ConsoleLog ''Using region: ap-south-1'',
      NewS3Client \<lparr>region = ''ap-south-1'', credentials = None\<rparr>,
      NewCloudFrontClient \<lparr>region = ''ap-south-1'', credentials = None\<rparr>]"
    unfolding r2 by simp
  have r3: "''eu-central-1'' = firstNonEmpty
         [regionOf (selectProfileConfig (sharedConfigFiles exampleEnv) ''default''),
          AWS_REGION (processEnv exampleEnv), AWS_DEFAULT_REGION (processEnv exampleEnv)]
         ''us-east-1''"
    by (simp add: example_defs selectProfileConfig_def lookupProfile_def regionOf_def)
  note c = deployWebsite_without_profile
    [where cf = "Map.empty" and sect = "Map.empty" and reg = "[]"
       and cf' = "Map.empty" and sect' = "Map.empty" and reg' = "[]"
       and fuel = "Suc (Suc 0)", OF p r3, THEN conjunct1]
  have n: "regionOf (selectProfileConfig (sharedConfigFiles
        (exampleEnv\<lparr>processEnv := \<lparr>AWS_REGION = None, AWS_DEFAULT_REGION = None\<rparr>\<rparr>))
        ''default'') = None \<and>
      AWS_REGION (processEnv
        (exampleEnv\<lparr>processEnv := \<lparr>AWS_REGION = None, AWS_DEFAULT_REGION = None\<rparr>\<rparr>)) = None \<and>
      AWS_DEFAULT_REGION (processEnv
        (exampleEnv\<lparr>processEnv := \<lparr>AWS_REGION = None, AWS_DEFAULT_REGION = None\<rparr>\<rparr>)) = None"
    by (simp add: example_defs selectProfileConfig_def lookupProfile_def regionOf_def)
  note t4 = deployWebsite_without_profile
    [where cf = "Map.empty" and sect = "Map.empty" and reg = "[]"
       and cf' = "Map.empty" and sect' = "Map.empty" and reg' = "[]"
       and env = "exampleEnv\<lparr>processEnv := \<lparr>AWS_REGION = None, AWS_DEFAULT_REGION = None\<rparr>\<rparr>"
       and fuel = "Suc (Suc 0)", OF p refl]
  from t4 n have r4: "firstNonEmpty
         [regionOf (selectProfileConfig (sharedConfigFiles
            (exampleEnv\<lparr>processEnv := \<lparr>AWS_REGION = None, AWS_DEFAULT_REGION = None\<rparr>\<rparr>))
            ''default''),
          AWS_REGION (processEnv
            (exampleEnv\<lparr>processEnv := \<lparr>AWS_REGION = None, AWS_DEFAULT_REGION = None\<rparr>\<rparr>)),
          AWS_DEFAULT_REGION (processEnv
            (exampleEnv\<lparr>processEnv := \<lparr>AWS_REGION = None, AWS_DEFAULT_REGION = None\<rparr>\<rparr>))]
         ''us-east-1'' = ''us-east-1''"
    by blast
  from t4 have d: "take 3 (snd (deployWebsite (Suc (Suc 0))
      (exampleEnv\<lparr>processEnv := \<lparr>AWS_REGION = None, AWS_DEFAULT_REGION = None\<rparr>\<rparr>)
      exampleOptions)) =
     [ConsoleLog ''Using region: us-east-1'',
      NewS3Client \<lparr>region = ''us-east-1'', credentials = None\<rparr>,
      NewCloudFrontClient \<lparr>region = ''us-east-1'', credentials = None\<rparr>]"
    unfolding r4 by simp
  from a b c d f1 f2 show ?thesis
    by (simp add: exampleOptions_def)
qed

end
